theory Spec2Isabelle
  imports Complex_Main
begin

section \<open>Python text primitives used by the sources\<close>

text \<open>
  Python strings are modelled as \<open>string\<close>; the model covers ASCII text.  A character
  outside ASCII is neither a letter, a digit, a word character nor white space here, and
  \<open>lower\<close>/\<open>upper\<close> leave it alone.
\<close>

definition is_upper :: "char \<Rightarrow> bool" where
  "is_upper c = (c \<in> set ''ABCDEFGHIJKLMNOPQRSTUVWXYZ'')"

definition is_lower :: "char \<Rightarrow> bool" where
  "is_lower c = (c \<in> set ''abcdefghijklmnopqrstuvwxyz'')"

definition is_digit :: "char \<Rightarrow> bool" where
  "is_digit c = (c \<in> set ''0123456789'')"

definition is_alpha :: "char \<Rightarrow> bool" where
  "is_alpha c = (is_upper c \<or> is_lower c)"

definition is_alnum :: "char \<Rightarrow> bool" where
  "is_alnum c = (is_alpha c \<or> is_digit c)"

text \<open>The class \<open>\w\<close>.\<close>

definition is_word :: "char \<Rightarrow> bool" where
  "is_word c = (is_alnum c \<or> c = CHR ''_'')"

text \<open>White space as \<open>str.strip()\<close> and \<open>\s\<close> see it (tab to carriage return, the four
  separators 0x1C to 0x1F, and the blank).\<close>

definition is_space :: "char \<Rightarrow> bool" where
  "is_space c = (c \<in> {CHR 0x09, CHR 0x0A, CHR 0x0B, CHR 0x0C, CHR 0x0D,
                        CHR 0x1C, CHR 0x1D, CHR 0x1E, CHR 0x1F, CHR 0x20})"

definition lower_char :: "char \<Rightarrow> char" where
  "lower_char c =
     (case map_of (zip ''ABCDEFGHIJKLMNOPQRSTUVWXYZ'' ''abcdefghijklmnopqrstuvwxyz'') c of
        Some d \<Rightarrow> d | None \<Rightarrow> c)"

definition upper_char :: "char \<Rightarrow> char" where
  "upper_char c =
     (case map_of (zip ''abcdefghijklmnopqrstuvwxyz'' ''ABCDEFGHIJKLMNOPQRSTUVWXYZ'') c of
        Some d \<Rightarrow> d | None \<Rightarrow> c)"

definition lower :: "string \<Rightarrow> string" where
  "lower s = map lower_char s"

definition upper :: "string \<Rightarrow> string" where
  "upper s = map upper_char s"

definition strip :: "string \<Rightarrow> string" where
  "strip s = rev (dropWhile is_space (rev (dropWhile is_space s)))"

text \<open>\<open>s.isdigit()\<close>: non-empty and digits only.\<close>

definition isdigit :: "string \<Rightarrow> bool" where
  "isdigit s = (s \<noteq> [] \<and> list_all is_digit s)"

primrec starts_with :: "string \<Rightarrow> string \<Rightarrow> bool" where
  "starts_with [] s = True"
| "starts_with (c # cs) s = (case s of [] \<Rightarrow> False | d # ds \<Rightarrow> c = d \<and> starts_with cs ds)"

text \<open>\<open>needle in s\<close> on strings.\<close>

primrec contains :: "string \<Rightarrow> string \<Rightarrow> bool" where
  "contains needle [] = (needle = [])"
| "contains needle (c # cs) = (starts_with needle (c # cs) \<or> contains needle cs)"

text \<open>\<open>sep.join(parts)\<close>.\<close>

fun join :: "string \<Rightarrow> string list \<Rightarrow> string" where
  "join sep [] = []"
| "join sep [x] = x"
| "join sep (x # y # ys) = x @ sep @ join sep (y # ys)"

subsection \<open>Regular expressions of the \<open>re\<close> module\<close>

text \<open>
  The patterns of the sources are built from the constructors below.  A position is the
  character before the cursor (none at the start), the text after the cursor and the text
  of capture group 1 if it has been closed.  \<open>rx_match\<close> lists the positions at which a
  match that starts at the given position can end, in the order in which a backtracking
  matcher tries them: greedy repetitions longest first, lazy ones shortest first, the left
  alternative before the right one.  The head of the list is the match \<open>re\<close> reports.
\<close>

datatype rx =
    Eps
  | Cls "char \<Rightarrow> bool"
  | Seq rx rx
  | Alt rx rx
  | Opt rx
  | Star "char \<Rightarrow> bool"
  | Plus "char \<Rightarrow> bool"
  | LazyStar "char \<Rightarrow> bool"
  | LazyPlus "char \<Rightarrow> bool"
  | WordB
  | Eol
  | Grp rx

type_synonym pos = "char option \<times> string \<times> string option"

text \<open>All non-empty runs of class characters from the cursor, the longest first.\<close>

primrec greedy_run :: "(char \<Rightarrow> bool) \<Rightarrow> string \<Rightarrow> string option \<Rightarrow> pos list" where
  "greedy_run p [] cap = []"
| "greedy_run p (c # cs) cap = (if p c then greedy_run p cs cap @ [(Some c, cs, cap)] else [])"

definition word_before :: "char option \<Rightarrow> bool" where
  "word_before prev = (case prev of None \<Rightarrow> False | Some c \<Rightarrow> is_word c)"

definition word_after :: "string \<Rightarrow> bool" where
  "word_after rest = (case rest of [] \<Rightarrow> False | c # _ \<Rightarrow> is_word c)"

fun rx_match :: "rx \<Rightarrow> pos \<Rightarrow> pos list" where
  "rx_match Eps ps = [ps]"
| "rx_match (Cls p) (prev, rest, cap) =
     (case rest of [] \<Rightarrow> [] | c # cs \<Rightarrow> if p c then [(Some c, cs, cap)] else [])"
| "rx_match (Seq a b) ps = concat (map (rx_match b) (rx_match a ps))"
| "rx_match (Alt a b) ps = rx_match a ps @ rx_match b ps"
| "rx_match (Opt a) ps = rx_match a ps @ [ps]"
| "rx_match (Star p) (prev, rest, cap) = greedy_run p rest cap @ [(prev, rest, cap)]"
| "rx_match (Plus p) (prev, rest, cap) = greedy_run p rest cap"
| "rx_match (LazyStar p) (prev, rest, cap) = (prev, rest, cap) # rev (greedy_run p rest cap)"
| "rx_match (LazyPlus p) (prev, rest, cap) = rev (greedy_run p rest cap)"
| "rx_match WordB (prev, rest, cap) =
     (if word_before prev \<noteq> word_after rest then [(prev, rest, cap)] else [])"
| "rx_match Eol (prev, rest, cap) =
     (if rest = [] \<or> rest = [CHR 0x0A] then [(prev, rest, cap)] else [])"
| "rx_match (Grp a) (prev, rest, cap) =
     map (\<lambda>(prev', rest', cap'). (prev', rest', Some (take (length rest - length rest') rest)))
         (rx_match a (prev, rest, cap))"

text \<open>A literal, compared as \<open>re.IGNORECASE\<close> compares ASCII letters.\<close>

primrec rx_lit_ci :: "string \<Rightarrow> rx" where
  "rx_lit_ci [] = Eps"
| "rx_lit_ci (c # cs) = Seq (Cls (\<lambda>d. lower_char d = lower_char c)) (rx_lit_ci cs)"

text \<open>
  \<open>re.findall\<close> for a pattern without groups that cannot match the empty string (all
  patterns of the sources given to it are such): scan from the left; at a match, emit its
  text and go on behind it.  The counter says how many characters of the last match are
  still to be stepped over.
\<close>

fun findall_from :: "rx \<Rightarrow> nat \<Rightarrow> char option \<Rightarrow> string \<Rightarrow> string list" where
  "findall_from r k prev [] = []"
| "findall_from r (Suc k) prev (c # cs) = findall_from r k (Some c) cs"
| "findall_from r 0 prev (c # cs) =
     (case rx_match r (prev, c # cs, None) of
        [] \<Rightarrow> findall_from r 0 (Some c) cs
      | (prev', rest', cap') # _ \<Rightarrow>
          (let n = length (c # cs) - length rest' in
           if n = 0 then findall_from r 0 (Some c) cs
           else take n (c # cs) # findall_from r (n - 1) (Some c) cs))"

definition findall :: "rx \<Rightarrow> string \<Rightarrow> string list" where
  "findall r s = findall_from r 0 None s"

text \<open>\<open>re.search(...)\<close> followed by \<open>match.group(1)\<close>: the leftmost start at which the
  pattern matches decides.\<close>

fun search_from :: "rx \<Rightarrow> char option \<Rightarrow> string \<Rightarrow> string option option" where
  "search_from r prev [] =
     (case rx_match r (prev, [], None) of [] \<Rightarrow> None | (prev', rest', cap') # _ \<Rightarrow> Some cap')"
| "search_from r prev (c # cs) =
     (case rx_match r (prev, c # cs, None) of
        [] \<Rightarrow> search_from r (Some c) cs
      | (prev', rest', cap') # _ \<Rightarrow> Some cap')"

definition search_group1 :: "rx \<Rightarrow> string \<Rightarrow> string option" where
  "search_group1 r s = (case search_from r None s of Some (Some g) \<Rightarrow> Some g | _ \<Rightarrow> None)"

section \<open>Literature client: request deduplication (src/llm/edison\_client.py)\<close>

text \<open>
  The module keeps one process-wide dictionary \<open>_active_requests\<close> from query hash to a
  timestamp.  \<open>search_literature\<close> consults it inside a lock, awaits the provider outside
  the lock, and touches it again in its \<open>finally\<close> block.  Timestamps are readings of
  \<open>time.time()\<close>; they are modelled as rationals and handed to the model as clock
  readings.  The hash \<open>hashlib.sha256(full_query.encode()).hexdigest()[:16]\<close> and the
  \<open>.1f\<close> float format are library functions and are parameters (\<open>fp\<close>, \<open>fmt\<close>).
\<close>

datatype JobStatus = PENDING | PROCESSING | COMPLETED | FAILED | TIMEOUT








text \<open>\<open>expired = [h for h, t in items if current_time - t > 1800]\<close>, then deleted.\<close>

definition reap_expired :: "rat \<Rightarrow> (string \<rightharpoonup> rat) \<Rightarrow> (string \<rightharpoonup> rat)" where
  "reap_expired current_time m =
     (\<lambda>h. case m h of
             None \<Rightarrow> None
           | Some t \<Rightarrow> if current_time - t > 1800 then None else Some t)"








section \<open>Pipeline runner (scripts/gia\_autonomous\_runner.py)\<close>

subsection \<open>Data classes\<close>

record PhaseResult =
  phase_id :: string
  phase_name :: string
  success :: bool
  exit_code :: int
  execution_time :: rat
  degraded :: bool
  degradation_reasons :: "string list"
  error_count :: nat
  warning_count :: nat
  critical_count :: nat

record PipelineResult =
  run_id :: string
  project_folder :: string
  started_at :: string
  finished_at :: string
  total_execution_time :: rat
  overall_success :: bool
  phases :: "PhaseResult list"
  evidence_items_count :: nat
  readiness_score :: rat
  degradation_summary :: "string list"

text \<open>\<open>PIPELINE_PHASES\<close>: script name, phase id, description, is-critical.\<close>

definition PIPELINE_PHASES :: "(string \<times> string \<times> string \<times> bool) list" where
  "PIPELINE_PHASES =
     [(''run_workflow.py'', ''phase_1'', ''Research Workflow (Intake)'', True),
      (''run_literature_workflow.py'', ''phase_2'', ''Literature Workflow'', False),
      (''run_gap_resolution.py'', ''phase_3'', ''Gap Resolution Workflow'', False),
      (''run_writing_review_stage.py'', ''phase_4'', ''Writing Review Stage'', False),
      (''run_paper_assembly.py'', ''phase_5a'', ''Paper Assembly'', False),
      (''run_paper_compile.py'', ''phase_5b'', ''Paper Compilation'', False)]"

subsection \<open>The logger's keyword monitor\<close>

text \<open>
  Of \<open>DualLogger\<close> the model keeps the four attributes the results are computed from.  The
  lines written to the log file and to the remedy file are left out.
\<close>

record DualLogger =
  logger_error_count :: nat
  logger_warning_count :: nat
  logger_critical_count :: nat
  logger_degradation_reasons :: "string list"

definition DualLogger_init :: DualLogger where
  "DualLogger_init =
     \<lparr>logger_error_count = 0, logger_warning_count = 0, logger_critical_count = 0,
      logger_degradation_reasons = []\<rparr>"

text \<open>The character \<open>.\<close> of a pattern: anything but a line feed.\<close>

definition rx_any :: "char \<Rightarrow> bool" where
  "rx_any c = (c \<noteq> CHR 0x0A)"

definition rx_quote :: "char \<Rightarrow> bool" where
  "rx_quote c = (c = CHR 0x22 \<or> c = CHR 0x27)"

text \<open>\<open>reason_code["\']?\s*[:=]\s*["\']?([a-zA-Z0-9_-]+)\<close>\<close>

definition reason_code_rx :: rx where
  "reason_code_rx =
     Seq (rx_lit_ci ''reason_code'')
      (Seq (Opt (Cls rx_quote))
        (Seq (Star is_space)
          (Seq (Cls (\<lambda>c. c = CHR '':'' \<or> c = CHR ''=''))
            (Seq (Star is_space)
              (Seq (Opt (Cls rx_quote))
                (Grp (Plus (\<lambda>c. is_alnum c \<or> c = CHR ''_'' \<or> c = CHR ''-''))))))))"

text \<open>\<open>(?:\.|$)\<close>\<close>

definition dot_or_end :: rx where
  "dot_or_end = Alt (Cls (\<lambda>c. c = CHR ''.'')) Eol"

text \<open>\<open>degradation.*?:\s*(.+?)(?:\.|$)\<close>\<close>

definition degradation_rx :: rx where
  "degradation_rx =
     Seq (rx_lit_ci ''degradation'')
      (Seq (LazyStar rx_any)
        (Seq (Cls (\<lambda>c. c = CHR '':''))
          (Seq (Star is_space)
            (Seq (Grp (LazyPlus rx_any)) dot_or_end))))"

text \<open>\<open>degraded.*?(?:due to|because|reason):\s*(.+?)(?:\.|$)\<close>\<close>

definition degraded_rx :: rx where
  "degraded_rx =
     Seq (rx_lit_ci ''degraded'')
      (Seq (LazyStar rx_any)
        (Seq (Alt (rx_lit_ci ''due to'') (Alt (rx_lit_ci ''because'') (rx_lit_ci ''reason'')))
          (Seq (Cls (\<lambda>c. c = CHR '':''))
            (Seq (Star is_space)
              (Seq (Grp (LazyPlus rx_any)) dot_or_end)))))"

definition extract_degradation_reason :: "string \<Rightarrow> string" where
  "extract_degradation_reason line =
     (case search_group1 reason_code_rx line of
        Some g \<Rightarrow> strip g
      | None \<Rightarrow>
          (case search_group1 degradation_rx line of
             Some g \<Rightarrow> strip g
           | None \<Rightarrow>
               (case search_group1 degraded_rx line of
                  Some g \<Rightarrow> strip g
                | None \<Rightarrow> take 100 (strip line))))"

definition process_output_line :: "string \<Rightarrow> string \<Rightarrow> DualLogger \<Rightarrow> DualLogger" where
  "process_output_line line pid lg =
     (let upper_line = upper line;
          lg1 = (if contains ''ERROR'' upper_line
                 then lg\<lparr>logger_error_count := logger_error_count lg + 1\<rparr> else lg);
          lg2 = (if contains ''WARNING'' upper_line
                 then lg1\<lparr>logger_warning_count := logger_warning_count lg1 + 1\<rparr> else lg1);
          lg3 = (if contains ''CRITICAL'' upper_line
                 then lg2\<lparr>logger_critical_count := logger_critical_count lg2 + 1\<rparr> else lg2)
      in if contains ''DEGRADATION'' upper_line \<or> contains ''DEGRADED'' upper_line
         then (let reason = extract_degradation_reason line
               in if reason \<noteq> []
                  then lg3\<lparr>logger_degradation_reasons :=
                             logger_degradation_reasons lg3 @ [''['' @ pid @ ''] '' @ reason]\<rparr>
                  else lg3)
         else lg3)"

definition reset_counts :: "DualLogger \<Rightarrow> DualLogger" where
  "reset_counts lg =
     lg\<lparr>logger_error_count := 0, logger_warning_count := 0, logger_critical_count := 0\<rparr>"

text \<open>\<open>stream_subprocess_output\<close>: every line of the child goes through the monitor.\<close>

primrec stream_subprocess_output :: "string list \<Rightarrow> string \<Rightarrow> DualLogger \<Rightarrow> DualLogger" where
  "stream_subprocess_output [] pid lg = lg"
| "stream_subprocess_output (line # ls) pid lg =
     stream_subprocess_output ls pid (process_output_line line pid lg)"

subsection \<open>Executing one phase\<close>

text \<open>
  What the child process does is an input of the model: it prints lines and exits with a
  code; or it closes its output and outlives the timeout (\<open>subprocess.TimeoutExpired\<close>);
  or launching or streaming raises some other exception after a number of lines.  Each
  case carries the wall-clock time the phase took.
\<close>

datatype child_run =
    Exited "string list" int rat
  | TimedOut "string list" rat
  | Raised "string list" rat

definition execute_phase ::
  "bool \<Rightarrow> child_run \<Rightarrow> string \<Rightarrow> string \<Rightarrow> DualLogger \<Rightarrow> PhaseResult \<times> DualLogger" where
  "execute_phase script_exists child pid pname lg =
     (if \<not> script_exists then
        (\<lparr>phase_id = pid, phase_name = pname, success = False, exit_code = - 1,
          execution_time = 0, degraded = False, degradation_reasons = [],
          error_count = 1, warning_count = 0, critical_count = 0\<rparr>, lg)
      else
        (case child of
           Exited ls code elapsed \<Rightarrow>
             (let lg1 = stream_subprocess_output ls pid (reset_counts lg);
                  ok = (code = 0);
                  dg = (length (logger_degradation_reasons lg1) > 0
                        \<or> (\<not> ok \<and> logger_error_count lg1 > 0))
              in (\<lparr>phase_id = pid, phase_name = pname, success = ok, exit_code = code,
                   execution_time = elapsed, degraded = dg,
                   degradation_reasons = logger_degradation_reasons lg1,
                   error_count = logger_error_count lg1,
                   warning_count = logger_warning_count lg1,
                   critical_count = logger_critical_count lg1\<rparr>,
                  lg1\<lparr>logger_degradation_reasons := []\<rparr>))
         | TimedOut ls elapsed \<Rightarrow>
             (\<lparr>phase_id = pid, phase_name = pname, success = False, exit_code = - 1,
               execution_time = elapsed, degraded = False, degradation_reasons = [],
               error_count = 1, warning_count = 0, critical_count = 0\<rparr>,
              stream_subprocess_output ls pid (reset_counts lg))
         | Raised ls elapsed \<Rightarrow>
             (\<lparr>phase_id = pid, phase_name = pname, success = False, exit_code = - 1,
               execution_time = elapsed, degraded = False, degradation_reasons = [],
               error_count = 1, warning_count = 0, critical_count = 0\<rparr>,
              stream_subprocess_output ls pid (reset_counts lg))))"

subsection \<open>The orchestrator\<close>

text \<open>
  The project folder is a map from paths (relative to the folder) to file contents.
  What the orchestrator does not decide is an input: whether each script exists, what
  each child does and writes, what the purge leaves of the folder, the time stamps, the
  two figures of the post-run evaluation, and whether writing the result file raises
  \<open>OSError\<close> (the write is then taken to leave the folder as it was).
\<close>

datatype file_content = RunResultJson PipelineResult | OtherFile string

type_synonym folder = "string \<rightharpoonup> file_content"

record phase_env =
  script_exists :: bool
  child :: child_run
  child_writes :: "folder \<Rightarrow> folder"

record run_env =
  folder_exists :: bool
  env_run_id :: string
  env_started_at :: string
  env_finished_at :: string
  env_total_time :: rat
  purge :: "folder \<Rightarrow> folder"
  phase_envs :: "string \<Rightarrow> phase_env"
  counted_evidence_items :: "folder \<Rightarrow> nat"
  found_readiness_score :: "folder \<Rightarrow> rat"
  write_raises :: bool

record run_state =
  pipeline_result :: PipelineResult
  logger :: DualLogger
  files :: folder

text \<open>The \<open>for\<close> loop over the phases, with its \<open>break\<close> after a failed critical phase.\<close>

fun run_phases ::
  "(string \<Rightarrow> phase_env) \<Rightarrow> (string \<times> string \<times> string \<times> bool) list \<Rightarrow> run_state \<Rightarrow> run_state" where
  "run_phases envs [] s = s"
| "run_phases envs ((script_name, pid, pname, is_critical) # rest) s =
     (let pe = envs script_name;
          (phase_result, lg') = execute_phase (script_exists pe) (child pe) pid pname (logger s);
          fs' = (if script_exists pe then child_writes pe (files s) else files s);
          r1 = (pipeline_result s)
                 \<lparr>phases := phases (pipeline_result s) @ [phase_result],
                  degradation_summary :=
                    degradation_summary (pipeline_result s) @ degradation_reasons phase_result\<rparr>
      in if \<not> success phase_result \<and> is_critical then
           \<lparr>pipeline_result = r1\<lparr>overall_success := False\<rparr>, logger = lg', files = fs'\<rparr>
         else
           run_phases envs rest
             \<lparr>pipeline_result =
                (if \<not> success phase_result \<and> \<not> degraded phase_result
                 then r1\<lparr>overall_success := False\<rparr> else r1),
              logger = lg', files = fs'\<rparr>)"

definition successful_phases :: "PipelineResult \<Rightarrow> nat" where
  "successful_phases r = length (filter success (phases r))"

definition total_phases :: "PipelineResult \<Rightarrow> nat" where
  "total_phases r = length (phases r)"

definition degraded_phases :: "PipelineResult \<Rightarrow> nat" where
  "degraded_phases r = length (filter degraded (phases r))"

text \<open>"Determine overall success".\<close>

definition determine_overall_success :: "PipelineResult \<Rightarrow> PipelineResult" where
  "determine_overall_success r =
     (if successful_phases r = total_phases r \<and> degraded_phases r = 0
      then r\<lparr>overall_success := True\<rparr>
      else if successful_phases r > 0
      then r\<lparr>overall_success := (successful_phases r \<ge> total_phases r div 2)\<rparr>
      else r)"

definition run_autonomous_pipeline ::
  "run_env \<Rightarrow> string \<Rightarrow> bool \<Rightarrow> bool \<Rightarrow> folder \<Rightarrow> PipelineResult \<times> folder" where
  "run_autonomous_pipeline env pf skip_purge dry_run fs =
     (let r0 = \<lparr>run_id = env_run_id env, project_folder = pf, started_at = env_started_at env,
                finished_at = [], total_execution_time = 0, overall_success = True,
                phases = [], evidence_items_count = 0, readiness_score = 0,
                degradation_summary = []\<rparr>
      in if \<not> folder_exists env then (r0\<lparr>overall_success := False\<rparr>, fs)
         else
           (let fs1 = (if \<not> skip_purge then purge env fs else fs)
            in if dry_run then (r0\<lparr>finished_at := env_finished_at env\<rparr>, fs1)
               else
                 (let s = run_phases (phase_envs env) PIPELINE_PHASES
                            \<lparr>pipeline_result = r0, logger = DualLogger_init, files = fs1\<rparr>;
                      r1 = (pipeline_result s)
                             \<lparr>total_execution_time := env_total_time env,
                              finished_at := env_finished_at env,
                              evidence_items_count := counted_evidence_items env (files s),
                              readiness_score := found_readiness_score env (files s)\<rparr>;
                      r2 = determine_overall_success r1
                  in (r2, if write_raises env then files s
                          else (files s)(''autonomous_run_result.json'' \<mapsto> RunResultJson r2)))))"

subsection \<open>Notions used in the statements about the runner\<close>




text \<open>A phase result appended to the pipeline result, as the loop body does.\<close>

definition appended :: "PhaseResult \<Rightarrow> PipelineResult \<Rightarrow> PipelineResult" where
  "appended pr r = r\<lparr>phases := phases r @ [pr],
                     degradation_summary := degradation_summary r @ degradation_reasons pr\<rparr>"

definition initial_state :: "run_env \<Rightarrow> string \<Rightarrow> bool \<Rightarrow> folder \<Rightarrow> run_state" where
  "initial_state env pf skip_purge fs =
     \<lparr>pipeline_result =
        \<lparr>run_id = env_run_id env, project_folder = pf, started_at = env_started_at env,
         finished_at = [], total_execution_time = 0, overall_success = True,
         phases = [], evidence_items_count = 0, readiness_score = 0,
         degradation_summary = []\<rparr>,
      logger = DualLogger_init,
      files = (if \<not> skip_purge then purge env fs else fs)\<rparr>"

text \<open>The state in which the loop over the phases ends.\<close>

definition after_phases :: "run_env \<Rightarrow> string \<Rightarrow> bool \<Rightarrow> folder \<Rightarrow> run_state" where
  "after_phases env pf skip_purge fs =
     run_phases (phase_envs env) PIPELINE_PHASES (initial_state env pf skip_purge fs)"

text \<open>A run environment in which every script exists, the children and the purge write
  nothing, and the result file can be written; the children are given.\<close>

definition quiet_env :: "(string \<Rightarrow> child_run) \<Rightarrow> run_env" where
  "quiet_env children =
     \<lparr>folder_exists = True, env_run_id = ''20260101_000000'',
      env_started_at = ''2026-01-01T00:00:00+00:00'', env_finished_at = ''2026-01-01T00:01:00+00:00'',
      env_total_time = 60, purge = (\<lambda>f. f),
      phase_envs = (\<lambda>sc. \<lparr>script_exists = True, child = children sc, child_writes = (\<lambda>f. f)\<rparr>),
      counted_evidence_items = (\<lambda>f. 0), found_readiness_score = (\<lambda>f. 0),
      write_raises = False\<rparr>"

section \<open>Citation accuracy gate (src/citations/accuracy\_gate.py)\<close>

text \<open>
  Python floats are modelled as exact rationals: the rounding error of double arithmetic
  is not part of the model.  Names that start with an underscore in the source lose it.
\<close>

subsection \<open>JSON values and the files of a project folder\<close>

datatype json =
    JNull
  | JBool bool
  | JInt int
  | JFloat rat
  | JStr string
  | JList "json list"
  | JDict "(string \<times> json) list"

text \<open>\<open>d.get(k)\<close>; a key that is absent and a key bound to \<open>null\<close> both read as \<open>None\<close>.\<close>

definition dict_get :: "json \<Rightarrow> string \<Rightarrow> json option" where
  "dict_get d k =
     (case d of
        JDict kvs \<Rightarrow> (case map_of kvs k of Some JNull \<Rightarrow> None | r \<Rightarrow> r)
      | _ \<Rightarrow> None)"

definition is_dict :: "json \<Rightarrow> bool" where
  "is_dict j = (case j of JDict _ \<Rightarrow> True | _ \<Rightarrow> False)"

text \<open>Python truthiness of a JSON value.\<close>

definition py_truthy :: "json \<Rightarrow> bool" where
  "py_truthy j =
     (case j of
        JNull \<Rightarrow> False | JBool b \<Rightarrow> b | JInt i \<Rightarrow> i \<noteq> 0 | JFloat r \<Rightarrow> r \<noteq> 0
      | JStr s \<Rightarrow> s \<noteq> [] | JList xs \<Rightarrow> xs \<noteq> [] | JDict kvs \<Rightarrow> kvs \<noteq> [])"

text \<open>
  What reading a path yields: the path does not exist; or it exists and opening or
  parsing it raises one of the exceptions \<open>_load_json_list\<close> catches (the string is the
  name of the exception's type); or it parses to a JSON value.
\<close>

datatype read_outcome = Missing | Unreadable string | Parsed json

text \<open>
  The folder as the gate sees it: what each path (relative to the folder) reads as,
  whether \<open>sources/\<close> exists, and the sorted result of the glob
  \<open>sources/*/evidence.json\<close>, each path with its \<open>is_file()\<close>.
\<close>

record project_files =
  file_at :: "string \<Rightarrow> read_outcome"
  sources_dir_exists :: bool
  evidence_glob :: "(string \<times> bool) list"

text \<open>Attributes of the trace span.\<close>

datatype attr_value = ABool bool | AStr string | AInt int | AFloat rat

type_synonym span = "string \<rightharpoonup> attr_value"

text \<open>
  Functions the module imports from modules that are not among the sources
  (\<open>src.utils.validation\<close>, \<open>src.utils.schema_validation\<close>, and
  \<open>safe_set_current_span_attributes\<close>, which the source of \<open>src.tracing\<close> does not
  define), and the library's \<open>str()\<close> on a value that is not a string.  They are
  parameters.  \<open>validate_project_folder\<close> raises unless it accepts the folder;
  \<open>safe_set_current_span_attributes\<close> turns the attributes it is given and the span into
  the span it leaves.
\<close>

record externals =
  validate_project_folder :: "project_files \<Rightarrow> bool"
  is_valid_claim_record :: "json \<Rightarrow> bool"
  is_valid_evidence_item :: "json \<Rightarrow> bool"
  repr_of :: "json \<Rightarrow> string"
  safe_set_current_span_attributes :: "(string \<times> attr_value) list \<Rightarrow> span \<Rightarrow> span"

definition py_str :: "externals \<Rightarrow> json \<Rightarrow> string" where
  "py_str ext j = (case j of JStr s \<Rightarrow> s | _ \<Rightarrow> repr_of ext j)"

definition load_json_list :: "read_outcome \<Rightarrow> json list \<times> string option" where
  "load_json_list f =
     (case f of
        Missing \<Rightarrow> ([], None)
      | Unreadable e \<Rightarrow> ([], Some e)
      | Parsed payload \<Rightarrow>
          (case payload of JList xs \<Rightarrow> (xs, None) | _ \<Rightarrow> ([], Some ''not_a_list'')))"

subsection \<open>Configuration\<close>

datatype OnFailureAction = OnBlock | OnDowngrade

record CitationAccuracyGateConfig =
  enabled :: bool
  on_failure :: OnFailureAction
  min_alignment_score :: rat
  min_keyword_overlap :: rat
  enable_entity_overlap :: bool
  min_entity_overlap :: rat
  enable_numeric_consistency :: bool
  max_evidence_items_per_claim :: int

definition CitationAccuracyGateConfig_default :: CitationAccuracyGateConfig where
  "CitationAccuracyGateConfig_default =
     \<lparr>enabled = False, on_failure = OnBlock, min_alignment_score = 18 / 100,
      min_keyword_overlap = 6 / 100, enable_entity_overlap = False,
      min_entity_overlap = 20 / 100, enable_numeric_consistency = False,
      max_evidence_items_per_claim = 5\<rparr>"

subsection \<open>Tokens, entities, numbers\<close>

definition STOPWORDS :: "string list" where
  "STOPWORDS =
     [''a'', ''an'', ''and'', ''are'', ''as'', ''at'', ''be'', ''by'', ''for'', ''from'', ''has'',
      ''have'', ''in'', ''is'', ''it'', ''its'', ''of'', ''on'', ''or'', ''that'', ''the'', ''this'',
      ''to'', ''was'', ''were'', ''with'']"

text \<open>\<open>[A-Za-z0-9]+\<close> over the lower-cased text.\<close>

definition tokenize :: "string \<Rightarrow> string set" where
  "tokenize text =
     set (filter (\<lambda>raw. \<not> length raw < 3 \<and> \<not> isdigit raw \<and> raw \<notin> set STOPWORDS)
                 (findall (Plus is_alnum) (lower text)))"

text \<open>\<open>\b(?:[A-Z][a-zA-Z]{2,}|[A-Z]{2,})\b\<close>\<close>

definition entity_rx :: rx where
  "entity_rx =
     Seq WordB
       (Seq (Alt (Seq (Cls is_upper) (Seq (Cls is_alpha) (Plus is_alpha)))
                 (Seq (Cls is_upper) (Plus is_upper)))
            WordB)"

definition extract_named_entities :: "string \<Rightarrow> string set" where
  "extract_named_entities text = set (map lower (findall entity_rx text))"

text \<open>\<open>\b\d+(?:\.\d+)?%?\b\<close>\<close>

definition number_rx :: rx where
  "number_rx =
     Seq WordB
       (Seq (Plus is_digit)
         (Seq (Opt (Seq (Cls (\<lambda>c. c = CHR ''.'')) (Plus is_digit)))
           (Seq (Opt (Cls (\<lambda>c. c = CHR ''%''))) WordB)))"

definition extract_numbers :: "string \<Rightarrow> string set" where
  "extract_numbers text = set (findall number_rx text)"

definition digit_value :: "char \<Rightarrow> int" where
  "digit_value c =
     (case map_of (zip ''0123456789'' [0, 1, 2, 3, 4, 5, 6, 7, 8, 9]) c of
        Some v \<Rightarrow> v | None \<Rightarrow> 0)"

text \<open>\<open>int(n)\<close> on a string of decimal digits.\<close>

definition int_of_digits :: "string \<Rightarrow> int" where
  "int_of_digits s = foldl (\<lambda>a c. 10 * a + digit_value c) 0 s"

definition ends_with_percent :: "string \<Rightarrow> bool" where
  "ends_with_percent n = (n \<noteq> [] \<and> last n = CHR ''%'')"

definition year_like :: "string \<Rightarrow> bool" where
  "year_like n =
     (isdigit n \<and> length n = 4 \<and> 1900 \<le> int_of_digits n \<and> int_of_digits n \<le> 2100)"

definition filter_year_like_numbers :: "string set \<Rightarrow> string set" where
  "filter_year_like_numbers nums =
     Set.filter (\<lambda>n. if ends_with_percent n then True else \<not> year_like n) nums"

definition jaccard :: "'a set \<Rightarrow> 'a set \<Rightarrow> rat" where
  "jaccard a b =
     (if a = {} \<and> b = {} then 1
      else if a = {} \<or> b = {} then 0
      else if card (a \<union> b) \<noteq> 0 then of_nat (card (a \<inter> b)) / of_nat (card (a \<union> b))
      else 0)"

text \<open>\<open>round(x, 6)\<close>, ties to even.\<close>

definition round6 :: "rat \<Rightarrow> rat" where
  "round6 x =
     (let y = x * 1000000; f = \<lfloor>y\<rfloor>; d = y - of_int f
      in (if d < 1 / 2 then of_int f
          else if 1 / 2 < d then of_int (f + 1)
          else if even f then of_int f else of_int (f + 1)) / 1000000)"

subsection \<open>Verifying one claim\<close>

record report =
  claim_id :: string
  citation_keys :: "json list"
  evidence_ids :: "string list"
  evidence_ids_used :: "string list"
  checked :: bool
  ok :: bool
  reasons :: "string list"
  alignment_score :: rat
  keyword_overlap :: rat
  entity_overlap :: rat
  numeric_ok :: bool

text \<open>\<open>[str(x) for x in v if isinstance(x, str) and x.strip()]\<close> when \<open>v\<close> is a list, else
  the empty list.\<close>

definition str_items :: "json option \<Rightarrow> string list" where
  "str_items v =
     (case v of
        Some (JList xs) \<Rightarrow>
          concat (map (\<lambda>x. case x of JStr s \<Rightarrow> if strip s \<noteq> [] then [s] else [] | _ \<Rightarrow> []) xs)
      | _ \<Rightarrow> [])"

text \<open>\<open>str(claim.get(k) or "").strip()\<close>\<close>

definition text_field :: "externals \<Rightarrow> json \<Rightarrow> string \<Rightarrow> string" where
  "text_field ext claim k =
     strip (case dict_get claim k of
              None \<Rightarrow> []
            | Some v \<Rightarrow> if py_truthy v then py_str ext v else [])"

text \<open>\<open>xs[:n]\<close> for an integer \<open>n\<close> of either sign.\<close>

definition slice_to :: "int \<Rightarrow> 'a list \<Rightarrow> 'a list" where
  "slice_to n xs = (if 0 \<le> n then take (nat n) xs else take (length xs - nat (- n)) xs)"

text \<open>The value under a key if it is a string that is not blank.\<close>

definition nonblank_str :: "json \<Rightarrow> string \<Rightarrow> string option" where
  "nonblank_str item k =
     (case dict_get item k of
        Some (JStr s) \<Rightarrow> if strip s \<noteq> [] then Some s else None
      | _ \<Rightarrow> None)"

text \<open>The loop over the evidence items consulted: the ids used, and the excerpts and
  contexts joined by line feeds.\<close>

definition used_ids_of :: "json list \<Rightarrow> string list" where
  "used_ids_of items =
     concat (map (\<lambda>item. case nonblank_str item ''evidence_id'' of
                            Some s \<Rightarrow> [strip s] | None \<Rightarrow> []) items)"

definition evidence_text_of :: "json list \<Rightarrow> string" where
  "evidence_text_of items =
     join [CHR 0x0A]
       (concat (map (\<lambda>item.
                  (case nonblank_str item ''excerpt'' of Some s \<Rightarrow> [s] | None \<Rightarrow> []) @
                  (case nonblank_str item ''context'' of Some s \<Rightarrow> [s] | None \<Rightarrow> [])) items))"

definition verify_claim ::
  "CitationAccuracyGateConfig \<Rightarrow> externals \<Rightarrow> json \<Rightarrow> json list \<Rightarrow> report" where
  "verify_claim cfg ext claim evidence_items =
     (let statement = text_field ext claim ''statement'';
          consulted = slice_to (max_evidence_items_per_claim cfg) evidence_items;
          evidence_text = evidence_text_of consulted;
          kw = jaccard (tokenize statement) (tokenize evidence_text);
          ent = (if enable_entity_overlap cfg
                 then jaccard (extract_named_entities statement)
                              (extract_named_entities evidence_text)
                 else 0);
          num_ok = (if enable_numeric_consistency cfg
                    then (let claim_nums = filter_year_like_numbers (extract_numbers statement);
                              evidence_nums = filter_year_like_numbers (extract_numbers evidence_text)
                          in \<not> (claim_nums \<noteq> {} \<and> \<not> claim_nums \<subseteq> evidence_nums))
                    else True);
          a0 = kw;
          a1 = (if enable_entity_overlap cfg then min 1 (a0 + (20 / 100) * ent) else a0);
          a2 = (if enable_numeric_consistency cfg \<and> \<not> num_ok then max 0 (a1 * (50 / 100)) else a1);
          fail_kw = (kw < min_keyword_overlap cfg);
          fail_ent = (enable_entity_overlap cfg \<and> ent < min_entity_overlap cfg);
          fail_num = (enable_numeric_consistency cfg \<and> \<not> num_ok);
          fail_score = (a2 < min_alignment_score cfg)
      in \<lparr>claim_id = text_field ext claim ''claim_id'',
          citation_keys = map JStr (str_items (dict_get claim ''citation_keys'')),
          evidence_ids = str_items (dict_get claim ''evidence_ids''),
          evidence_ids_used = used_ids_of consulted,
          checked = True,
          ok = (\<not> fail_kw \<and> \<not> fail_ent \<and> \<not> fail_num \<and> \<not> fail_score),
          reasons =
            (if fail_kw then [''keyword_overlap_below_threshold''] else []) @
            (if fail_ent then [''entity_overlap_below_threshold''] else []) @
            (if fail_num then [''numeric_mismatch''] else []) @
            (if fail_score then [''alignment_score_below_threshold''] else []),
          alignment_score = round6 a2,
          keyword_overlap = round6 kw,
          entity_overlap = round6 ent,
          numeric_ok = num_ok\<rparr>)"

subsection \<open>Loading evidence and claims\<close>

type_synonym evidence_map = "string \<rightharpoonup> json"

text \<open>The inner loop of \<open>_load_evidence_map\<close> over the items of one file.\<close>

fun load_evidence_items ::
  "externals \<Rightarrow> json list \<Rightarrow> evidence_map \<times> nat \<Rightarrow> evidence_map \<times> nat" where
  "load_evidence_items ext [] acc = acc"
| "load_evidence_items ext (item # rest) (by_id, invalid) =
     (if \<not> is_dict item \<or> \<not> is_valid_evidence_item ext item
      then load_evidence_items ext rest (by_id, invalid + 1)
      else (case nonblank_str item ''evidence_id'' of
              Some s \<Rightarrow> load_evidence_items ext rest (by_id(strip s \<mapsto> item), invalid)
            | None \<Rightarrow> load_evidence_items ext rest (by_id, invalid)))"

text \<open>The outer loop over the evidence files; the state is \<open>(by_id, invalid, scanned)\<close>.\<close>

fun load_evidence_files ::
  "externals \<Rightarrow> (string \<Rightarrow> read_outcome) \<Rightarrow> (string \<times> bool) list \<Rightarrow>
   evidence_map \<times> nat \<times> nat \<Rightarrow> evidence_map \<times> nat \<times> nat" where
  "load_evidence_files ext rd [] acc = acc"
| "load_evidence_files ext rd ((path, is_file) # rest) (by_id, invalid, scanned) =
     (if \<not> is_file then load_evidence_files ext rd rest (by_id, invalid, scanned)
      else (case load_json_list (rd path) of
              (payload, Some err) \<Rightarrow> load_evidence_files ext rd rest (by_id, invalid, scanned + 1)
            | (payload, None) \<Rightarrow>
                (case load_evidence_items ext payload (by_id, invalid) of
                   (by_id', invalid') \<Rightarrow>
                     load_evidence_files ext rd rest (by_id', invalid', scanned + 1))))"

definition iter_evidence_files :: "project_files \<Rightarrow> (string \<times> bool) list" where
  "iter_evidence_files pf = (if \<not> sources_dir_exists pf then [] else evidence_glob pf)"

definition load_evidence_map :: "externals \<Rightarrow> project_files \<Rightarrow> evidence_map \<times> nat \<times> nat" where
  "load_evidence_map ext pf =
     load_evidence_files ext (file_at pf) (iter_evidence_files pf) (Map.empty, 0, 0)"

text \<open>\<open>str(item.get("kind")) != "source_backed"\<close>: \<open>str\<close> of a value that is not a string is
  never that text, so the test passes for the string \<open>source_backed\<close> alone.\<close>

definition kind_is_source_backed :: "json \<Rightarrow> bool" where
  "kind_is_source_backed item = (dict_get item ''kind'' = Some (JStr ''source_backed''))"

definition claims_path :: string where
  "claims_path = ''claims/claims.json''"

definition path_exists :: "project_files \<Rightarrow> string \<Rightarrow> bool" where
  "path_exists pf p = (file_at pf p \<noteq> Missing)"

text \<open>The result is \<open>(claims, invalid, claims_path.exists(), err)\<close>.\<close>

definition load_source_backed_claims ::
  "externals \<Rightarrow> project_files \<Rightarrow> json list \<times> nat \<times> bool \<times> string option" where
  "load_source_backed_claims ext pf =
     (case load_json_list (file_at pf claims_path) of
        (payload, err) \<Rightarrow>
          (filter kind_is_source_backed
             (filter (\<lambda>item. is_dict item \<and> is_valid_claim_record ext item) payload),
           length (filter (\<lambda>item. \<not> is_dict item \<or> \<not> is_valid_claim_record ext item) payload),
           path_exists pf claims_path,
           err))"

subsection \<open>The gate\<close>

datatype gate_action = Pass | Block | Downgrade | Disabled

text \<open>The string each action is in the source.\<close>

definition action_name :: "gate_action \<Rightarrow> string" where
  "action_name a =
     (case a of Pass \<Rightarrow> ''pass'' | Block \<Rightarrow> ''block'' | Downgrade \<Rightarrow> ''downgrade''
      | Disabled \<Rightarrow> ''disabled'')"

record gate_result =
  gate_ok :: bool
  gate_enabled :: bool
  action :: gate_action
  reports :: "report list"
  checked_claims_total :: nat
  failed_claims_total :: nat
  skipped_missing_evidence_total :: nat
  claims_file_present :: bool
  claims_read_error :: "string option"
  claims_invalid_items :: nat
  evidence_invalid_items :: nat
  evidence_files_scanned :: nat

text \<open>The report of a claim that is skipped, with its reason.\<close>

definition skipped_report ::
  "externals \<Rightarrow> json \<Rightarrow> string list \<Rightarrow> string list \<Rightarrow> string \<Rightarrow> report" where
  "skipped_report ext claim ids used reason =
     \<lparr>claim_id = text_field ext claim ''claim_id'',
      citation_keys = (case dict_get claim ''citation_keys'' of Some (JList ks) \<Rightarrow> ks | _ \<Rightarrow> []),
      evidence_ids = ids,
      evidence_ids_used = used,
      checked = False,
      ok = True,
      reasons = [reason],
      alignment_score = 0,
      keyword_overlap = 0,
      entity_overlap = 0,
      numeric_ok = True\<rparr>"

text \<open>The evidence items the ids resolve to, in order, and whether any id did not resolve.\<close>

definition resolve_ids :: "evidence_map \<Rightarrow> string list \<Rightarrow> json list \<times> bool" where
  "resolve_ids evidence ids =
     (concat (map (\<lambda>ev_id. case evidence ev_id of None \<Rightarrow> [] | Some item \<Rightarrow> [item]) ids),
      list_ex (\<lambda>ev_id. evidence ev_id = None) ids)"

text \<open>\<open>[i.get("evidence_id") for i in evidence_items if isinstance(i.get("evidence_id"), str)]\<close>\<close>

definition raw_ids_of :: "json list \<Rightarrow> string list" where
  "raw_ids_of items =
     concat (map (\<lambda>i. case dict_get i ''evidence_id'' of Some (JStr s) \<Rightarrow> [s] | _ \<Rightarrow> []) items)"

text \<open>The loop counters: reports, checked, failed, skipped.\<close>

type_synonym tally = "report list \<times> nat \<times> nat \<times> nat"

text \<open>One turn of the loop over the claims.\<close>

definition check_claim ::
  "CitationAccuracyGateConfig \<Rightarrow> externals \<Rightarrow> evidence_map \<Rightarrow> tally \<Rightarrow> json \<Rightarrow> tally" where
  "check_claim cfg ext evidence acc claim =
     (case acc of
        (reps, n_checked, n_failed, n_skipped) \<Rightarrow>
          (let evidence_ids_list = str_items (dict_get claim ''evidence_ids'')
           in if evidence_ids_list = [] then
                (reps @ [skipped_report ext claim [] [] ''missing_evidence_ids''],
                 n_checked, n_failed, n_skipped + 1)
              else
                (case resolve_ids evidence evidence_ids_list of
                   (evidence_items, missing_any) \<Rightarrow>
                     if missing_any \<or> evidence_items = [] then
                       (reps @ [skipped_report ext claim evidence_ids_list
                                  (raw_ids_of evidence_items) ''evidence_ids_unresolved''],
                        n_checked, n_failed, n_skipped + 1)
                     else
                       (let rep = verify_claim cfg ext claim evidence_items
                        in (reps @ [rep], n_checked + 1,
                            (if \<not> ok rep then n_failed + 1 else n_failed), n_skipped)))))"

definition check_claims ::
  "CitationAccuracyGateConfig \<Rightarrow> externals \<Rightarrow> evidence_map \<Rightarrow> json list \<Rightarrow> tally" where
  "check_claims cfg ext evidence claims =
     foldl (check_claim cfg ext evidence) ([], 0, 0, 0) claims"

text \<open>What the gate can touch: the project folder and the current span.\<close>

record gate_world =
  folder_files :: project_files
  current_span :: span

datatype gate_error = ProjectFolderRejected

definition check_citation_accuracy_gate ::
  "externals \<Rightarrow> CitationAccuracyGateConfig option \<Rightarrow> gate_world \<Rightarrow>
   gate_error + gate_result \<times> gate_world" where
  "check_citation_accuracy_gate ext config w =
     (let cfg = (case config of None \<Rightarrow> CitationAccuracyGateConfig_default | Some c \<Rightarrow> c);
          pf = folder_files w
      in if \<not> validate_project_folder ext pf then Inl ProjectFolderRejected
         else if \<not> enabled cfg then
           Inr (\<lparr>gate_ok = True, gate_enabled = False, action = Disabled, reports = [],
                 checked_claims_total = 0, failed_claims_total = 0,
                 skipped_missing_evidence_total = 0,
                 claims_file_present = path_exists pf claims_path,
                 claims_read_error = None, claims_invalid_items = 0,
                 evidence_invalid_items = 0, evidence_files_scanned = 0\<rparr>,
                w\<lparr>current_span :=
                     safe_set_current_span_attributes ext
                       [(''gate.name'', AStr ''citation_accuracy''),
                        (''gate.enabled'', ABool False),
                        (''gate.ok'', ABool True),
                        (''gate.action'', AStr ''disabled'')]
                       (current_span w)\<rparr>)
         else
           (case load_source_backed_claims ext pf of
              (claims, claims_invalid, present, read_error) \<Rightarrow>
                (case load_evidence_map ext pf of
                   (evidence, evidence_invalid, scanned) \<Rightarrow>
                     (case check_claims cfg ext evidence claims of
                        (reps, n_checked, n_failed, n_skipped) \<Rightarrow>
                          (let has_problem = (n_failed > 0);
                               act = (if has_problem
                                      then (if on_failure cfg = OnBlock then Block else Downgrade)
                                      else Pass);
                               is_ok = (if has_problem
                                        then (if on_failure cfg = OnBlock then False else True)
                                        else True)
                           in Inr (\<lparr>gate_ok = is_ok, gate_enabled = True, action = act,
                                     reports = reps,
                                     checked_claims_total = n_checked,
                                     failed_claims_total = n_failed,
                                     skipped_missing_evidence_total = n_skipped,
                                     claims_file_present = present,
                                     claims_read_error = read_error,
                                     claims_invalid_items = claims_invalid,
                                     evidence_invalid_items = evidence_invalid,
                                     evidence_files_scanned = scanned\<rparr>,
                                   w\<lparr>current_span :=
                                        safe_set_current_span_attributes ext
                                          [(''gate.name'', AStr ''citation_accuracy''),
                                           (''gate.enabled'', ABool True),
                                           (''gate.ok'', ABool is_ok),
                                           (''gate.action'', AStr (action_name act)),
                                           (''citation_accuracy.checked_claims_total'',
                                              AInt (int n_checked)),
                                           (''citation_accuracy.failed_claims_total'',
                                              AInt (int n_failed)),
                                           (''citation_accuracy.skipped_missing_evidence_total'',
                                              AInt (int n_skipped)),
                                           (''citation_accuracy.min_alignment_score'',
                                              AFloat (min_alignment_score cfg)),
                                           (''citation_accuracy.min_keyword_overlap'',
                                              AFloat (min_keyword_overlap cfg)),
                                           (''citation_accuracy.enable_entity_overlap'',
                                              ABool (enable_entity_overlap cfg)),
                                           (''citation_accuracy.enable_numeric_consistency'',
                                              ABool (enable_numeric_consistency cfg))]
                                          (current_span w)\<rparr>))))))"

subsection \<open>Notions used in the statements about the gate\<close>

text \<open>The configuration in force: \<open>config or CitationAccuracyGateConfig()\<close>.\<close>

definition config_in_force :: "CitationAccuracyGateConfig option \<Rightarrow> CitationAccuracyGateConfig" where
  "config_in_force config =
     (case config of None \<Rightarrow> CitationAccuracyGateConfig_default | Some c \<Rightarrow> c)"

text \<open>The numbers of a text that take part in the numeric check.\<close>

definition non_year_numbers :: "string \<Rightarrow> string set" where
  "non_year_numbers text = filter_year_like_numbers (extract_numbers text)"





text \<open>A claim one of whose evidence ids (a string that is not blank) is not a key of the
  evidence loaded.\<close>

definition has_unresolved_id :: "evidence_map \<Rightarrow> json \<Rightarrow> bool" where
  "has_unresolved_id evidence claim =
     list_ex (\<lambda>ev_id. evidence ev_id = None) (str_items (dict_get claim ''evidence_ids''))"


text \<open>A folder with the given claims file and evidence files and nothing else, and
  external functions that accept everything and set the attributes on the span over what
  it held.\<close>

definition folder_with :: "read_outcome \<Rightarrow> (string \<times> json) list \<Rightarrow> project_files" where
  "folder_with claims_file evidence =
     \<lparr>file_at = (\<lambda>p. if p = claims_path then claims_file
                      else (case map_of evidence p of Some j \<Rightarrow> Parsed j | None \<Rightarrow> Missing)),
      sources_dir_exists = (evidence \<noteq> []),
      evidence_glob = map (\<lambda>(p, j). (p, True)) evidence\<rparr>"

definition accepting :: externals where
  "accepting =
     \<lparr>validate_project_folder = (\<lambda>pf. True), is_valid_claim_record = (\<lambda>j. True),
      is_valid_evidence_item = (\<lambda>j. True), repr_of = (\<lambda>j. []),
      safe_set_current_span_attributes = (\<lambda>attrs sp. sp ++ map_of attrs)\<rparr>"

definition claim_json :: "string \<Rightarrow> string \<Rightarrow> string list \<Rightarrow> json" where
  "claim_json cid statement ids =
     JDict [(''claim_id'', JStr cid), (''kind'', JStr ''source_backed''),
            (''statement'', JStr statement), (''evidence_ids'', JList (map JStr ids))]"

definition evidence_json :: "string \<Rightarrow> string \<Rightarrow> json" where
  "evidence_json eid excerpt = JDict [(''evidence_id'', JStr eid), (''excerpt'', JStr excerpt)]"

text \<open>The counters of the loop count the reports.\<close>

definition tally_ok :: "tally \<Rightarrow> bool" where
  "tally_ok t =
     (case t of (reps, n_checked, n_failed, n_skipped) \<Rightarrow>
        n_checked = length (filter checked reps)
        \<and> n_failed = length (filter (\<lambda>r. checked r \<and> \<not> ok r) reps)
        \<and> n_skipped = length (filter (\<lambda>r. \<not> checked r) reps))"

text \<open>The action and the \<open>ok\<close> flag the enabled gate decides on from the number of failed
  claims, the attributes it gives to the span, and what it loads and tallies.\<close>

definition decided_action :: "CitationAccuracyGateConfig \<Rightarrow> nat \<Rightarrow> gate_action" where
  "decided_action cfg n_failed =
     (if n_failed > 0 then (if on_failure cfg = OnBlock then Block else Downgrade) else Pass)"

definition decided_ok :: "CitationAccuracyGateConfig \<Rightarrow> nat \<Rightarrow> bool" where
  "decided_ok cfg n_failed = (\<not> (n_failed > 0 \<and> on_failure cfg = OnBlock))"

definition enabled_span_attrs ::
  "CitationAccuracyGateConfig \<Rightarrow> tally \<Rightarrow> (string \<times> attr_value) list" where
  "enabled_span_attrs cfg t =
     (case t of (reps, n_checked, n_failed, n_skipped) \<Rightarrow>
        [(''gate.name'', AStr ''citation_accuracy''),
         (''gate.enabled'', ABool True),
         (''gate.ok'', ABool (decided_ok cfg n_failed)),
         (''gate.action'', AStr (action_name (decided_action cfg n_failed))),
         (''citation_accuracy.checked_claims_total'', AInt (int n_checked)),
         (''citation_accuracy.failed_claims_total'', AInt (int n_failed)),
         (''citation_accuracy.skipped_missing_evidence_total'', AInt (int n_skipped)),
         (''citation_accuracy.min_alignment_score'', AFloat (min_alignment_score cfg)),
         (''citation_accuracy.min_keyword_overlap'', AFloat (min_keyword_overlap cfg)),
         (''citation_accuracy.enable_entity_overlap'', ABool (enable_entity_overlap cfg)),
         (''citation_accuracy.enable_numeric_consistency'', ABool (enable_numeric_consistency cfg))])"

definition loaded_claims :: "externals \<Rightarrow> project_files \<Rightarrow> json list" where
  "loaded_claims ext pf = fst (load_source_backed_claims ext pf)"

definition loaded_evidence :: "externals \<Rightarrow> project_files \<Rightarrow> evidence_map" where
  "loaded_evidence ext pf = fst (load_evidence_map ext pf)"

definition gate_tally ::
  "externals \<Rightarrow> CitationAccuracyGateConfig \<Rightarrow> project_files \<Rightarrow> tally" where
  "gate_tally ext cfg pf =
     check_claims cfg ext (loaded_evidence ext pf) (loaded_claims ext pf)"

text \<open>The report the loop appends for a claim.\<close>

definition report_of ::
  "CitationAccuracyGateConfig \<Rightarrow> externals \<Rightarrow> evidence_map \<Rightarrow> json \<Rightarrow> report" where
  "report_of cfg ext evidence claim =
     last (fst (check_claim cfg ext evidence ([], 0, 0, 0) claim))"

text \<open>A folder with one source-backed claim \<open>c1\<close> and one evidence item \<open>ev1\<close>, under an
  empty span; and a configuration with the thresholds 0.25 and 0.15 and the numeric check.\<close>

definition one_claim_world :: "string \<Rightarrow> string list \<Rightarrow> string \<Rightarrow> gate_world" where
  "one_claim_world statement ids excerpt =
     \<lparr>folder_files =
        folder_with (Parsed (JList [claim_json ''c1'' statement ids]))
          [(''sources/source1/evidence.json'', JList [evidence_json ''ev1'' excerpt])],
      current_span = Map.empty\<rparr>"

definition strict_config :: "OnFailureAction \<Rightarrow> CitationAccuracyGateConfig" where
  "strict_config on_fail =
     CitationAccuracyGateConfig_default
       \<lparr>enabled := True, on_failure := on_fail, min_alignment_score := 25 / 100,
        min_keyword_overlap := 15 / 100, enable_numeric_consistency := True\<rparr>"

section \<open>Properties of the literature client\<close>



lemma reap_expired_fresh:
  "m h = Some t \<Longrightarrow> \<not> 1800 < now - t \<Longrightarrow> reap_expired now m h = Some t"
  by (simp add: reap_expired_def)

lemma reap_expired_old:
  "m h = Some t \<Longrightarrow> 1800 < now - t \<Longrightarrow> reap_expired now m h = None"
  by (simp add: reap_expired_def)




section \<open>Properties of the pipeline runner\<close>








lemma run_phases_step:
  "run_phases envs ((script_name, pid, pname, is_critical) # rest) s =
     (let ex = execute_phase (script_exists (envs script_name)) (child (envs script_name))
                 pid pname (logger s);
          fs' = (if script_exists (envs script_name)
                 then child_writes (envs script_name) (files s) else files s)
      in if \<not> success (fst ex) \<and> is_critical
         then \<lparr>pipeline_result = (appended (fst ex) (pipeline_result s))\<lparr>overall_success := False\<rparr>,
               logger = snd ex, files = fs'\<rparr>
         else run_phases envs rest
                \<lparr>pipeline_result =
                   (if \<not> success (fst ex) \<and> \<not> degraded (fst ex)
                    then (appended (fst ex) (pipeline_result s))\<lparr>overall_success := False\<rparr>
                    else appended (fst ex) (pipeline_result s)),
                 logger = snd ex, files = fs'\<rparr>)"
  by (simp add: Let_def appended_def split: prod.splits)

lemma run_phases_break:
  assumes "\<not> success (fst (execute_phase (script_exists (envs script_name)) (child (envs script_name))
                 pid pname (logger s))) \<and> is_critical"
  shows "run_phases envs ((script_name, pid, pname, is_critical) # rest) s =
         \<lparr>pipeline_result =
            (appended (fst (execute_phase (script_exists (envs script_name)) (child (envs script_name))
                 pid pname (logger s))) (pipeline_result s))\<lparr>overall_success := False\<rparr>,
          logger = snd (execute_phase (script_exists (envs script_name)) (child (envs script_name))
                 pid pname (logger s)),
          files = (if script_exists (envs script_name)
                 then child_writes (envs script_name) (files s) else files s)\<rparr>"
  unfolding run_phases_step Let_def using assms by (rule if_P)

lemma run_phases_continue:
  assumes "\<not> (\<not> success (fst (execute_phase (script_exists (envs script_name)) (child (envs script_name))
                 pid pname (logger s))) \<and> is_critical)"
  shows "run_phases envs ((script_name, pid, pname, is_critical) # rest) s =
         run_phases envs rest
           \<lparr>pipeline_result =
              (if \<not> success (fst (execute_phase (script_exists (envs script_name)) (child (envs script_name))
                 pid pname (logger s)))
                  \<and> \<not> degraded (fst (execute_phase (script_exists (envs script_name)) (child (envs script_name))
                 pid pname (logger s)))
               then (appended (fst (execute_phase (script_exists (envs script_name)) (child (envs script_name))
                 pid pname (logger s))) (pipeline_result s))\<lparr>overall_success := False\<rparr>
               else appended (fst (execute_phase (script_exists (envs script_name)) (child (envs script_name))
                 pid pname (logger s))) (pipeline_result s)),
            logger = snd (execute_phase (script_exists (envs script_name)) (child (envs script_name))
                 pid pname (logger s)),
            files = (if script_exists (envs script_name)
                 then child_writes (envs script_name) (files s) else files s)\<rparr>"
  unfolding run_phases_step Let_def using assms by (rule if_not_P)

lemma phases_appended: "phases (appended pr r) = phases r @ [pr]"
  by (simp add: appended_def)

lemma run_phases_extends:
  "\<exists>ps. phases (pipeline_result (run_phases envs tbl s)) = phases (pipeline_result s) @ ps"
proof (induction tbl arbitrary: s)
  case Nil
  show ?case by simp
next
  case (Cons e rest)
  obtain script_name pid pname is_critical where e: "e = (script_name, pid, pname, is_critical)"
    by (cases e)
  let ?ex = "execute_phase (script_exists (envs script_name)) (child (envs script_name))
                 pid pname (logger s)"
  show ?case
  proof (cases "\<not> success (fst ?ex) \<and> is_critical")
    case True
    have "phases (pipeline_result (run_phases envs (e # rest) s)) = phases (pipeline_result s) @ [fst ?ex]"
      unfolding e run_phases_break[where envs=envs and script_name=script_name and pid=pid and pname=pname and s=s and rest=rest, OF True] by (simp add: phases_appended)
    then show ?thesis by blast
  next
    case False
    let ?s' = "\<lparr>pipeline_result =
              (if \<not> success (fst ?ex) \<and> \<not> degraded (fst ?ex)
               then (appended (fst ?ex) (pipeline_result s))\<lparr>overall_success := False\<rparr>
               else appended (fst ?ex) (pipeline_result s)),
            logger = snd ?ex,
            files = (if script_exists (envs script_name)
                 then child_writes (envs script_name) (files s) else files s)\<rparr>"
    have ph: "phases (pipeline_result ?s') = phases (pipeline_result s) @ [fst ?ex]"
      by (simp add: phases_appended)
    obtain ps where "phases (pipeline_result (run_phases envs rest ?s')) = phases (pipeline_result ?s') @ ps"
      using Cons.IH[of ?s'] by blast
    then have "phases (pipeline_result (run_phases envs (e # rest) s)) = phases (pipeline_result s) @ (fst ?ex # ps)"
      unfolding e run_phases_continue[where envs=envs and script_name=script_name and pid=pid and pname=pname and s=s and rest=rest, OF False] ph by simp
    then show ?thesis by blast
  qed
qed

text \<open>The first phase of the table is critical: its failure ends the run on the spot.\<close>

lemma run_phases_critical_failed:
  assumes "\<not> success (fst (execute_phase (script_exists (envs script_name)) (child (envs script_name))
                 pid pname (logger s)))"
  shows "phases (pipeline_result (run_phases envs ((script_name, pid, pname, True) # rest) s)) =
              phases (pipeline_result s) @ [fst (execute_phase (script_exists (envs script_name)) (child (envs script_name))
                 pid pname (logger s))]
            \<and> \<not> overall_success (pipeline_result (run_phases envs ((script_name, pid, pname, True) # rest) s))"
proof -
  have c: "\<not> success (fst (execute_phase (script_exists (envs script_name)) (child (envs script_name))
                 pid pname (logger s))) \<and> True"
    using assms by simp
  show ?thesis unfolding run_phases_break[where envs=envs and script_name=script_name and pid=pid and pname=pname and s=s and rest=rest, OF c] by (simp add: phases_appended)
qed

lemma run_phases_critical_passed:
  assumes "success (fst (execute_phase (script_exists (envs script_name)) (child (envs script_name))
                 pid pname (logger s)))"
  shows "\<exists>ps. phases (pipeline_result (run_phases envs ((script_name, pid, pname, True) # rest) s)) =
              phases (pipeline_result s) @ fst (execute_phase (script_exists (envs script_name)) (child (envs script_name))
                 pid pname (logger s)) # ps"
proof -
  let ?ex = "execute_phase (script_exists (envs script_name)) (child (envs script_name))
                 pid pname (logger s)"
  have c: "\<not> (\<not> success (fst ?ex) \<and> True)"
    using assms by simp
  let ?s' = "\<lparr>pipeline_result =
              (if \<not> success (fst ?ex) \<and> \<not> degraded (fst ?ex)
               then (appended (fst ?ex) (pipeline_result s))\<lparr>overall_success := False\<rparr>
               else appended (fst ?ex) (pipeline_result s)),
            logger = snd ?ex,
            files = (if script_exists (envs script_name)
                 then child_writes (envs script_name) (files s) else files s)\<rparr>"
  have ph: "phases (pipeline_result ?s') = phases (pipeline_result s) @ [fst ?ex]"
    by (simp add: phases_appended)
  obtain ps where "phases (pipeline_result (run_phases envs rest ?s')) = phases (pipeline_result ?s') @ ps"
    using run_phases_extends[of envs rest ?s'] by blast
  then have "phases (pipeline_result (run_phases envs ((script_name, pid, pname, True) # rest) s)) =
              phases (pipeline_result s) @ fst ?ex # ps"
    unfolding run_phases_continue[where envs=envs and script_name=script_name and pid=pid and pname=pname and s=s and rest=rest, OF c] ph by simp
  then show ?thesis by blast
qed

lemma determine_overall_success_counts:
  "phases (determine_overall_success r) = phases r"
  by (simp add: determine_overall_success_def)

lemma determine_overall_success_value:
  "overall_success (determine_overall_success r) =
     (if successful_phases r = total_phases r \<and> degraded_phases r = 0 then True
      else if successful_phases r > 0 then successful_phases r \<ge> total_phases r div 2
      else overall_success r)"
  by (simp add: determine_overall_success_def successful_phases_def total_phases_def degraded_phases_def)

lemma pipeline_phases_shape:
  "PIPELINE_PHASES = (''run_workflow.py'', ''phase_1'', ''Research Workflow (Intake)'', True) # tl PIPELINE_PHASES"
  by (simp add: PIPELINE_PHASES_def)

lemma execute_phase_id: "phase_id (fst (execute_phase se c pid pname lg)) = pid"
  by (cases c) (simp_all add: execute_phase_def Let_def)

lemma run_executed:
  assumes "folder_exists env" "\<not> dry_run"
  shows "fst (run_autonomous_pipeline env pf skip_purge dry_run fs) =
           determine_overall_success
             ((pipeline_result (after_phases env pf skip_purge fs))
                \<lparr>total_execution_time := env_total_time env,
                 finished_at := env_finished_at env,
                 evidence_items_count := counted_evidence_items env (files (after_phases env pf skip_purge fs)),
                 readiness_score := found_readiness_score env (files (after_phases env pf skip_purge fs))\<rparr>)"
    and "snd (run_autonomous_pipeline env pf skip_purge dry_run fs) =
           (if write_raises env then files (after_phases env pf skip_purge fs)
            else (files (after_phases env pf skip_purge fs))
                   (''autonomous_run_result.json'' \<mapsto>
                      RunResultJson (fst (run_autonomous_pipeline env pf skip_purge dry_run fs))))"
  using assms
  by (simp_all add: run_autonomous_pipeline_def Let_def after_phases_def initial_state_def)

lemma after_phases_cases:
  "(phases (pipeline_result (after_phases env pf skip_purge fs)) =
       [fst (execute_phase (script_exists (phase_envs env ''run_workflow.py''))
              (child (phase_envs env ''run_workflow.py'')) ''phase_1''
              ''Research Workflow (Intake)'' DualLogger_init)]
     \<and> \<not> success (fst (execute_phase (script_exists (phase_envs env ''run_workflow.py''))
              (child (phase_envs env ''run_workflow.py'')) ''phase_1''
              ''Research Workflow (Intake)'' DualLogger_init))
     \<and> \<not> overall_success (pipeline_result (after_phases env pf skip_purge fs)))
   \<or> (\<exists>ps. phases (pipeline_result (after_phases env pf skip_purge fs)) =
         fst (execute_phase (script_exists (phase_envs env ''run_workflow.py''))
              (child (phase_envs env ''run_workflow.py'')) ''phase_1''
              ''Research Workflow (Intake)'' DualLogger_init) # ps
       \<and> success (fst (execute_phase (script_exists (phase_envs env ''run_workflow.py''))
              (child (phase_envs env ''run_workflow.py'')) ''phase_1''
              ''Research Workflow (Intake)'' DualLogger_init)))"
proof -
  let ?s0 = "initial_state env pf skip_purge fs"
  let ?ex = "execute_phase (script_exists (phase_envs env ''run_workflow.py''))
              (child (phase_envs env ''run_workflow.py'')) ''phase_1''
              ''Research Workflow (Intake)'' DualLogger_init"
  have lg: "logger ?s0 = DualLogger_init" and ph: "phases (pipeline_result ?s0) = []"
    by (simp_all add: initial_state_def)
  show ?thesis
  proof (cases "success (fst ?ex)")
    case True
    then have "success (fst (execute_phase (script_exists (phase_envs env ''run_workflow.py''))
              (child (phase_envs env ''run_workflow.py'')) ''phase_1''
              ''Research Workflow (Intake)'' (logger ?s0)))" by (simp add: lg)
    from run_phases_critical_passed[where envs="phase_envs env" and script_name="''run_workflow.py''"
           and s="?s0" and rest="tl PIPELINE_PHASES", OF this]
    show ?thesis using True unfolding after_phases_def pipeline_phases_shape[symmetric] lg ph by simp
  next
    case False
    then have "\<not> success (fst (execute_phase (script_exists (phase_envs env ''run_workflow.py''))
              (child (phase_envs env ''run_workflow.py'')) ''phase_1''
              ''Research Workflow (Intake)'' (logger ?s0)))" by (simp add: lg)
    from run_phases_critical_failed[where envs="phase_envs env" and script_name="''run_workflow.py''"
           and s="?s0" and rest="tl PIPELINE_PHASES", OF this]
    show ?thesis using False unfolding after_phases_def pipeline_phases_shape[symmetric] lg ph by simp
  qed
qed

text \<open>
  Claim C1, as amended.  If the final result has \<open>overall_success = True\<close> then at
  least half of the phase results (rounded down) have \<open>success = True\<close>, and the first
  entry of the phases list, the critical intake phase, is among them.  For a run that
  executes phases the first entry is \<open>phase_1\<close>, and \<open>overall_success\<close> is true
  exactly when at least one phase succeeded and the successful phases are at least half
  of the phases run.  The runner evaluates no gate itself; a gate that blocks inside a
  child shows only in that phase's exit code.
\<close>

theorem overall_success_meaning:
  "(overall_success (fst (run_autonomous_pipeline env pf skip_purge dry_run fs)) \<longrightarrow>
      total_phases (fst (run_autonomous_pipeline env pf skip_purge dry_run fs)) div 2
        \<le> successful_phases (fst (run_autonomous_pipeline env pf skip_purge dry_run fs))
      \<and> list_all success (take 1 (phases (fst (run_autonomous_pipeline env pf skip_purge dry_run fs)))))
   \<and> (folder_exists env \<and> \<not> dry_run \<longrightarrow>
        map phase_id (take 1 (phases (fst (run_autonomous_pipeline env pf skip_purge dry_run fs))))
          = [''phase_1'']
        \<and> overall_success (fst (run_autonomous_pipeline env pf skip_purge dry_run fs)) =
          (0 < successful_phases (fst (run_autonomous_pipeline env pf skip_purge dry_run fs))
           \<and> total_phases (fst (run_autonomous_pipeline env pf skip_purge dry_run fs)) div 2
               \<le> successful_phases (fst (run_autonomous_pipeline env pf skip_purge dry_run fs))))"
proof (cases "folder_exists env \<and> \<not> dry_run")
  case False
  then show ?thesis
    by (auto simp add: run_autonomous_pipeline_def Let_def total_phases_def successful_phases_def)
next
  case True
  then have fe: "folder_exists env" and nd: "\<not> dry_run" by simp_all
  let ?s = "after_phases env pf skip_purge fs"
  let ?r1 = "(pipeline_result ?s)
                \<lparr>total_execution_time := env_total_time env,
                 finished_at := env_finished_at env,
                 evidence_items_count := counted_evidence_items env (files ?s),
                 readiness_score := found_readiness_score env (files ?s)\<rparr>"
  let ?r = "fst (run_autonomous_pipeline env pf skip_purge dry_run fs)"
  let ?p1 = "fst (execute_phase (script_exists (phase_envs env ''run_workflow.py''))
              (child (phase_envs env ''run_workflow.py'')) ''phase_1''
              ''Research Workflow (Intake)'' DualLogger_init)"
  have r: "?r = determine_overall_success ?r1" by (rule run_executed(1)[OF fe nd])
  have ph: "phases ?r = phases (pipeline_result ?s)"
    by (simp add: r determine_overall_success_counts)
  have ov: "overall_success ?r =
     (if successful_phases ?r1 = total_phases ?r1 \<and> degraded_phases ?r1 = 0 then True
      else if successful_phases ?r1 > 0 then successful_phases ?r1 \<ge> total_phases ?r1 div 2
      else overall_success (pipeline_result ?s))"
    by (simp add: r determine_overall_success_value)
  have cnt: "successful_phases ?r1 = successful_phases ?r" "total_phases ?r1 = total_phases ?r"
    by (simp_all add: successful_phases_def total_phases_def ph)
  from after_phases_cases[of env pf skip_purge fs]
  show ?thesis
  proof (elim disjE conjE exE)
    assume a: "phases (pipeline_result ?s) = [?p1]" "\<not> success ?p1"
              "\<not> overall_success (pipeline_result ?s)"
    have s0: "successful_phases ?r = 0" "total_phases ?r = 1"
      using a by (simp_all add: successful_phases_def total_phases_def ph)
    have "\<not> overall_success ?r" using ov a(3) by (simp add: cnt s0)
    moreover have "map phase_id (take 1 (phases ?r)) = [''phase_1'']"
      by (simp add: ph a(1) execute_phase_id)
    ultimately show ?thesis using True s0 by simp
  next
    fix ps
    assume a: "phases (pipeline_result ?s) = ?p1 # ps" "success ?p1"
    have pos: "0 < successful_phases ?r"
      using a by (simp add: successful_phases_def ph)
    have le: "successful_phases ?r \<le> total_phases ?r"
      by (simp add: successful_phases_def total_phases_def)
    have o: "overall_success ?r = (total_phases ?r div 2 \<le> successful_phases ?r)"
      using ov pos le by (auto simp add: cnt)
    have "map phase_id (take 1 (phases ?r)) = [''phase_1'']"
      by (simp add: ph a(1) execute_phase_id)
    moreover have "list_all success (take 1 (phases ?r))"
      by (simp add: ph a)
    ultimately show ?thesis using True o pos by simp
  qed
qed

lemmas run_eval =
  quiet_env_def run_autonomous_pipeline_def PIPELINE_PHASES_def execute_phase_def
  DualLogger_init_def reset_counts_def determine_overall_success_def successful_phases_def
  total_phases_def degraded_phases_def Let_def

text \<open>
  Claim C1 as stated fails: the second phase exits with code 1, the other five succeed,
  and the run ends with \<open>overall_success = True\<close>.
\<close>

theorem overall_success_with_failed_phase:
  "overall_success
     (fst (run_autonomous_pipeline
        (quiet_env (\<lambda>sc. if sc = ''run_literature_workflow.py'' then Exited [] 1 1 else Exited [] 0 1))
        ''project'' True False Map.empty))
   \<and> map success (phases
     (fst (run_autonomous_pipeline
        (quiet_env (\<lambda>sc. if sc = ''run_literature_workflow.py'' then Exited [] 1 1 else Exited [] 0 1))
        ''project'' True False Map.empty))) = [True, False, True, True, True, True]"
  by (simp add: run_eval)

theorem overall_success_meaning_witness:
  "overall_success
     (fst (run_autonomous_pipeline
        (quiet_env (\<lambda>sc. if sc = ''run_literature_workflow.py'' then Exited [] 1 1 else Exited [] 0 1))
        ''project'' True False Map.empty))
   \<and> total_phases
     (fst (run_autonomous_pipeline
        (quiet_env (\<lambda>sc. if sc = ''run_literature_workflow.py'' then Exited [] 1 1 else Exited [] 0 1))
        ''project'' True False Map.empty)) = 6
   \<and> successful_phases
     (fst (run_autonomous_pipeline
        (quiet_env (\<lambda>sc. if sc = ''run_literature_workflow.py'' then Exited [] 1 1 else Exited [] 0 1))
        ''project'' True False Map.empty)) = 5
   \<and> list_all success (take 1 (phases
     (fst (run_autonomous_pipeline
        (quiet_env (\<lambda>sc. if sc = ''run_literature_workflow.py'' then Exited [] 1 1 else Exited [] 0 1))
        ''project'' True False Map.empty))))"
  using overall_success_meaning
          [of "quiet_env (\<lambda>sc. if sc = ''run_literature_workflow.py'' then Exited [] 1 1 else Exited [] 0 1)"
              "''project''" True False Map.empty]
  by (simp add: run_eval)





section \<open>Properties of the citation accuracy gate\<close>






text \<open>
  Claim C5 at a failing input.  The number pattern ends in \<open>\b\<close>, so in the text
  \<open>2020% overall\<close> the match gives the percent sign back: the token extracted is
  \<open>2020\<close>, the year filter drops it, and the statement passes the numeric check
  against evidence that has no such number.  The sign is kept only before a word
  character, and the filter itself keeps a token that ends in it.
\<close>

theorem percent_suffix_lost:
  "extract_numbers ''Growth was 2020% overall'' = {''2020''}
   \<and> non_year_numbers ''Growth was 2020% overall'' = {}
   \<and> extract_numbers ''Growth was 2020%x overall'' = {''2020%''}
   \<and> filter_year_like_numbers {''2020%'', ''2020''} = {''2020%''}
   \<and> numeric_ok (verify_claim
        (CitationAccuracyGateConfig_default\<lparr>enabled := True, enable_numeric_consistency := True\<rparr>)
        accepting
        (claim_json ''c1'' ''Growth was 2020% overall'' [''ev1''])
        [evidence_json ''ev1'' ''Growth was 5% overall''])"
  by code_simp

lemma verify_claim_checked: "checked (verify_claim cfg ext claim items)"
  by (simp add: verify_claim_def Let_def)

lemma check_claim_tally:
  assumes "tally_ok t"
  shows "tally_ok (check_claim cfg ext evidence t claim)"
proof -
  obtain reps c f s where t: "t = (reps, c, f, s)" by (cases t)
  show ?thesis
    using assms unfolding t
    by (auto simp add: tally_ok_def check_claim_def Let_def skipped_report_def
          verify_claim_checked split: prod.splits)
qed

lemma foldl_check_claim_tally:
  "tally_ok t \<Longrightarrow> tally_ok (foldl (check_claim cfg ext evidence) t claims)"
  by (induction claims arbitrary: t) (simp_all add: check_claim_tally)

lemma check_claims_tally: "tally_ok (check_claims cfg ext evidence claims)"
  unfolding check_claims_def
  by (rule foldl_check_claim_tally) (simp add: tally_ok_def)

lemma check_claims_empty: "check_claims cfg ext evidence [] = ([], 0, 0, 0)"
  by (simp add: check_claims_def)

text \<open>The gate's result in terms of what was loaded and tallied.\<close>

lemma gate_disabled:
  assumes "validate_project_folder ext (folder_files w)" "\<not> enabled (config_in_force config)"
  shows "check_citation_accuracy_gate ext config w =
           Inr (\<lparr>gate_ok = True, gate_enabled = False, action = Disabled, reports = [],
                 checked_claims_total = 0, failed_claims_total = 0,
                 skipped_missing_evidence_total = 0,
                 claims_file_present = path_exists (folder_files w) claims_path,
                 claims_read_error = None, claims_invalid_items = 0,
                 evidence_invalid_items = 0, evidence_files_scanned = 0\<rparr>,
                w\<lparr>current_span :=
                     safe_set_current_span_attributes ext
                       [(''gate.name'', AStr ''citation_accuracy''),
                        (''gate.enabled'', ABool False),
                        (''gate.ok'', ABool True),
                        (''gate.action'', AStr ''disabled'')]
                       (current_span w)\<rparr>)"
  using assms by (simp add: check_citation_accuracy_gate_def config_in_force_def Let_def)

lemma gate_enabled:
  assumes "validate_project_folder ext (folder_files w)" "enabled (config_in_force config)"
  shows "check_citation_accuracy_gate ext config w =
           Inr (\<lparr>gate_ok = decided_ok (config_in_force config)
                             (fst (snd (snd (gate_tally ext (config_in_force config) (folder_files w))))),
                 gate_enabled = True,
                 action = decided_action (config_in_force config)
                             (fst (snd (snd (gate_tally ext (config_in_force config) (folder_files w))))),
                 reports = fst (gate_tally ext (config_in_force config) (folder_files w)),
                 checked_claims_total = fst (snd (gate_tally ext (config_in_force config) (folder_files w))),
                 failed_claims_total = fst (snd (snd (gate_tally ext (config_in_force config) (folder_files w)))),
                 skipped_missing_evidence_total =
                   snd (snd (snd (gate_tally ext (config_in_force config) (folder_files w)))),
                 claims_file_present = fst (snd (snd (load_source_backed_claims ext (folder_files w)))),
                 claims_read_error = snd (snd (snd (load_source_backed_claims ext (folder_files w)))),
                 claims_invalid_items = fst (snd (load_source_backed_claims ext (folder_files w))),
                 evidence_invalid_items = fst (snd (load_evidence_map ext (folder_files w))),
                 evidence_files_scanned = snd (snd (load_evidence_map ext (folder_files w)))\<rparr>,
                w\<lparr>current_span :=
                     safe_set_current_span_attributes ext
                       (enabled_span_attrs (config_in_force config)
                          (gate_tally ext (config_in_force config) (folder_files w)))
                       (current_span w)\<rparr>)"
  using assms
  by (auto simp add: check_citation_accuracy_gate_def config_in_force_def Let_def gate_tally_def
        loaded_claims_def loaded_evidence_def decided_ok_def decided_action_def
        enabled_span_attrs_def split: prod.splits option.splits)

lemma check_claim_report:
  "fst (check_claim cfg ext evidence (reps, c, f, s) claim) =
     reps @ [report_of cfg ext evidence claim]"
  by (simp add: check_claim_def report_of_def Let_def split: prod.splits)

lemma foldl_check_claim_reports:
  "fst (foldl (check_claim cfg ext evidence) t claims) =
     fst t @ map (report_of cfg ext evidence) claims"
proof (induction claims arbitrary: t)
  case Nil
  show ?case by simp
next
  case (Cons c cs)
  obtain reps n1 n2 n3 where t: "t = (reps, n1, n2, n3)" by (cases t)
  show ?case
    by (simp add: Cons.IH) (simp add: t check_claim_report)
qed

lemma check_claims_reports:
  "fst (check_claims cfg ext evidence claims) = map (report_of cfg ext evidence) claims"
  by (simp add: check_claims_def foldl_check_claim_reports)

lemma check_claims_counts:
  "fst (snd (check_claims cfg ext evidence claims)) =
     length (filter checked (map (report_of cfg ext evidence) claims))"
  "fst (snd (snd (check_claims cfg ext evidence claims))) =
     length (filter (\<lambda>r. checked r \<and> \<not> ok r) (map (report_of cfg ext evidence) claims))"
  "snd (snd (snd (check_claims cfg ext evidence claims))) =
     length (filter (\<lambda>r. \<not> checked r) (map (report_of cfg ext evidence) claims))"
  using check_claims_tally[of cfg ext evidence claims]
        check_claims_reports[of cfg ext evidence claims]
  by (auto simp add: tally_ok_def split: prod.splits)

lemma unresolved_ids_nonempty:
  "has_unresolved_id evidence claim \<Longrightarrow> str_items (dict_get claim ''evidence_ids'') \<noteq> []"
  by (auto simp add: has_unresolved_id_def)

lemma check_claim_unresolved:
  assumes "has_unresolved_id evidence claim"
  shows "check_claim cfg ext evidence (reps, n_checked, n_failed, n_skipped) claim =
           (reps @ [skipped_report ext claim (str_items (dict_get claim ''evidence_ids''))
                      (raw_ids_of (fst (resolve_ids evidence (str_items (dict_get claim ''evidence_ids'')))))
                      ''evidence_ids_unresolved''],
            n_checked, n_failed, n_skipped + 1)"
  using assms unresolved_ids_nonempty[OF assms]
  by (simp add: check_claim_def Let_def resolve_ids_def has_unresolved_id_def)

lemma report_of_unresolved:
  assumes "has_unresolved_id evidence claim"
  shows "report_of cfg ext evidence claim =
           skipped_report ext claim (str_items (dict_get claim ''evidence_ids''))
                      (raw_ids_of (fst (resolve_ids evidence (str_items (dict_get claim ''evidence_ids'')))))
                      ''evidence_ids_unresolved''"
  by (simp add: report_of_def check_claim_unresolved[OF assms])

lemma decided_action_cases:
  "(decided_action cfg n = Pass) = (n = 0)"
  "(decided_action cfg n = Block) = (0 < n \<and> on_failure cfg = OnBlock)"
  "(decided_action cfg n = Downgrade) = (0 < n \<and> on_failure cfg = OnDowngrade)"
  "decided_action cfg n \<noteq> Disabled"
  "decided_ok cfg n = (decided_action cfg n \<in> {Pass, Downgrade, Disabled})"
  by (cases "on_failure cfg"; simp add: decided_action_def decided_ok_def)+

text \<open>
  Claim C3.  On a folder that \<open>validate_project_folder\<close> accepts the gate returns a
  result.  With \<open>enabled = False\<close> the action is \<open>disabled\<close>.  When enabled, the action is
  \<open>pass\<close> iff no claim failed (in particular when no source-backed claim was loaded),
  \<open>block\<close> iff some claim failed and \<open>on_failure\<close> is \<open>block\<close>, \<open>downgrade\<close> iff some
  claim failed and \<open>on_failure\<close> is \<open>downgrade\<close>; the failed claims are the reports that
  are checked and not ok.  In every case \<open>ok\<close> is true iff the action is \<open>pass\<close>,
  \<open>downgrade\<close> or \<open>disabled\<close>.
\<close>

theorem gate_decision:
  assumes "validate_project_folder ext (folder_files w)"
  shows "\<exists>r w'. check_citation_accuracy_gate ext config w = Inr (r, w')
     \<and> (\<not> enabled (config_in_force config) \<longrightarrow> action r = Disabled)
     \<and> (enabled (config_in_force config) \<longrightarrow>
          (action r = Pass) = (failed_claims_total r = 0)
          \<and> (action r = Block) =
              (0 < failed_claims_total r \<and> on_failure (config_in_force config) = OnBlock)
          \<and> (action r = Downgrade) =
              (0 < failed_claims_total r \<and> on_failure (config_in_force config) = OnDowngrade)
          \<and> (loaded_claims ext (folder_files w) = [] \<longrightarrow> action r = Pass))
     \<and> gate_ok r = (action r \<in> {Pass, Downgrade, Disabled})
     \<and> failed_claims_total r = length (filter (\<lambda>rp. checked rp \<and> \<not> ok rp) (reports r))"
proof (cases "enabled (config_in_force config)")
  case False
  show ?thesis
    unfolding gate_disabled[OF assms False] using False by simp
next
  case True
  let ?cfg = "config_in_force config"
  let ?t = "gate_tally ext ?cfg (folder_files w)"
  have rep: "fst ?t = map (report_of ?cfg ext (loaded_evidence ext (folder_files w)))
                          (loaded_claims ext (folder_files w))"
    by (simp add: gate_tally_def check_claims_reports)
  have failed: "fst (snd (snd ?t)) = length (filter (\<lambda>rp. checked rp \<and> \<not> ok rp) (fst ?t))"
    unfolding rep by (simp add: gate_tally_def check_claims_counts)
  have empty: "loaded_claims ext (folder_files w) = [] \<Longrightarrow> fst (snd (snd ?t)) = 0"
    by (simp add: gate_tally_def check_claims_empty)
  show ?thesis
    unfolding gate_enabled[OF assms True]
    using True failed empty by (simp add: decided_action_cases)
qed

text \<open>
  Claim C9.  A claim one of whose evidence ids (the strings of \<open>evidence_ids\<close> that are
  not blank) is no key of the loaded evidence adds one to the skipped counter and
  nothing to the checked and failed counters; its report has \<open>checked = False\<close>,
  \<open>ok = True\<close> and the reason \<open>evidence_ids_unresolved\<close>.  In every enabled run the
  failed total counts checked reports only, so such a claim never adds to it; and when
  all loaded claims are such claims the action is \<open>pass\<close>, nothing is checked or failed
  and every claim is counted as skipped.
\<close>

theorem unresolved_claims_skipped:
  "(has_unresolved_id evidence claim \<longrightarrow>
      check_claim cfg ext evidence (reps, n_checked, n_failed, n_skipped) claim =
        (reps @ [report_of cfg ext evidence claim], n_checked, n_failed, n_skipped + 1)
      \<and> \<not> checked (report_of cfg ext evidence claim)
      \<and> ok (report_of cfg ext evidence claim)
      \<and> reasons (report_of cfg ext evidence claim) = [''evidence_ids_unresolved''])
   \<and> (validate_project_folder ext (folder_files w) \<and> enabled (config_in_force config) \<longrightarrow>
        (\<exists>r w'. check_citation_accuracy_gate ext config w = Inr (r, w')
           \<and> reports r =
               map (report_of (config_in_force config) ext (loaded_evidence ext (folder_files w)))
                   (loaded_claims ext (folder_files w))
           \<and> failed_claims_total r = length (filter (\<lambda>rp. checked rp \<and> \<not> ok rp) (reports r))
           \<and> skipped_missing_evidence_total r = length (filter (\<lambda>rp. \<not> checked rp) (reports r))
           \<and> ((\<forall>c \<in> set (loaded_claims ext (folder_files w)).
                   has_unresolved_id (loaded_evidence ext (folder_files w)) c) \<longrightarrow>
                 action r = Pass \<and> gate_ok r \<and> failed_claims_total r = 0
                 \<and> checked_claims_total r = 0
                 \<and> skipped_missing_evidence_total r = length (loaded_claims ext (folder_files w)))))"
proof (intro conjI impI)
  assume u: "has_unresolved_id evidence claim"
  show "check_claim cfg ext evidence (reps, n_checked, n_failed, n_skipped) claim =
        (reps @ [report_of cfg ext evidence claim], n_checked, n_failed, n_skipped + 1)"
    by (simp add: check_claim_unresolved[OF u] report_of_unresolved[OF u])
  show "\<not> checked (report_of cfg ext evidence claim)"
    by (simp add: report_of_unresolved[OF u] skipped_report_def)
  show "ok (report_of cfg ext evidence claim)"
    by (simp add: report_of_unresolved[OF u] skipped_report_def)
  show "reasons (report_of cfg ext evidence claim) = [''evidence_ids_unresolved'']"
    by (simp add: report_of_unresolved[OF u] skipped_report_def)
next
  assume a: "validate_project_folder ext (folder_files w) \<and> enabled (config_in_force config)"
  then have v: "validate_project_folder ext (folder_files w)"
    and en: "enabled (config_in_force config)" by simp_all
  let ?cfg = "config_in_force config"
  let ?ev = "loaded_evidence ext (folder_files w)"
  let ?cl = "loaded_claims ext (folder_files w)"
  let ?t = "gate_tally ext ?cfg (folder_files w)"
  have rep: "fst ?t = map (report_of ?cfg ext ?ev) ?cl"
    by (simp add: gate_tally_def check_claims_reports)
  have checked: "fst (snd ?t) = length (filter checked (fst ?t))"
    unfolding rep by (simp add: gate_tally_def check_claims_counts)
  have failed: "fst (snd (snd ?t)) = length (filter (\<lambda>rp. checked rp \<and> \<not> ok rp) (fst ?t))"
    unfolding rep by (simp add: gate_tally_def check_claims_counts)
  have skipped: "snd (snd (snd ?t)) = length (filter (\<lambda>rp. \<not> checked rp) (fst ?t))"
    unfolding rep by (simp add: gate_tally_def check_claims_counts)
  have allskip: "fst (snd ?t) = 0 \<and> fst (snd (snd ?t)) = 0 \<and> snd (snd (snd ?t)) = length ?cl"
    if all: "\<forall>c \<in> set ?cl. has_unresolved_id ?ev c"
  proof -
    have nc: "\<forall>rp \<in> set (fst ?t). \<not> checked rp"
      unfolding rep using all by (auto simp add: report_of_unresolved skipped_report_def)
    then have f1: "filter checked (fst ?t) = []"
      and f2: "filter (\<lambda>rp. checked rp \<and> \<not> ok rp) (fst ?t) = []"
      and f3: "filter (\<lambda>rp. \<not> checked rp) (fst ?t) = fst ?t"
      by (auto simp add: filter_empty_conv filter_id_conv)
    show ?thesis
      unfolding checked failed skipped f1 f2 f3 by (simp add: rep)
  qed
  show "\<exists>r w'. check_citation_accuracy_gate ext config w = Inr (r, w')
           \<and> reports r = map (report_of ?cfg ext ?ev) ?cl
           \<and> failed_claims_total r = length (filter (\<lambda>rp. checked rp \<and> \<not> ok rp) (reports r))
           \<and> skipped_missing_evidence_total r = length (filter (\<lambda>rp. \<not> checked rp) (reports r))
           \<and> ((\<forall>c \<in> set ?cl. has_unresolved_id ?ev c) \<longrightarrow>
                 action r = Pass \<and> gate_ok r \<and> failed_claims_total r = 0
                 \<and> checked_claims_total r = 0
                 \<and> skipped_missing_evidence_total r = length ?cl)"
    unfolding gate_enabled[OF v en]
    using rep failed skipped allskip by (simp add: decided_action_cases)
qed



text \<open>
  Claim C8, as amended.  Every evaluation of the gate on an accepted folder returns its
  result to the caller, leaves the project folder as it was, and hands to
  \<open>safe_set_current_span_attributes\<close>, for the current span, the attributes
  \<open>gate.name\<close>, \<open>gate.enabled\<close>, \<open>gate.ok\<close> and \<open>gate.action\<close> with the values of the
  result, and, when enabled, the three claim counters of the result.
\<close>

theorem gate_reads_only_and_sets_span:
  assumes "validate_project_folder ext (folder_files w)"
  shows "\<exists>r w' attrs. check_citation_accuracy_gate ext config w = Inr (r, w')
           \<and> folder_files w' = folder_files w
           \<and> current_span w' = safe_set_current_span_attributes ext attrs (current_span w)
           \<and> map_of attrs ''gate.name'' = Some (AStr ''citation_accuracy'')
           \<and> map_of attrs ''gate.enabled'' = Some (ABool (gate_enabled r))
           \<and> map_of attrs ''gate.ok'' = Some (ABool (gate_ok r))
           \<and> map_of attrs ''gate.action'' = Some (AStr (action_name (action r)))
           \<and> (enabled (config_in_force config) \<longrightarrow>
                map_of attrs ''citation_accuracy.checked_claims_total''
                  = Some (AInt (int (checked_claims_total r)))
                \<and> map_of attrs ''citation_accuracy.failed_claims_total''
                  = Some (AInt (int (failed_claims_total r)))
                \<and> map_of attrs ''citation_accuracy.skipped_missing_evidence_total''
                  = Some (AInt (int (skipped_missing_evidence_total r))))"
proof (cases "enabled (config_in_force config)")
  case False
  let ?attrs = "[(''gate.name'', AStr ''citation_accuracy''),
                 (''gate.enabled'', ABool False),
                 (''gate.ok'', ABool True),
                 (''gate.action'', AStr ''disabled'')]"
  let ?r = "\<lparr>gate_ok = True, gate_enabled = False, action = Disabled, reports = [],
                 checked_claims_total = 0, failed_claims_total = 0,
                 skipped_missing_evidence_total = 0,
                 claims_file_present = path_exists (folder_files w) claims_path,
                 claims_read_error = None, claims_invalid_items = 0,
                 evidence_invalid_items = 0, evidence_files_scanned = 0\<rparr>"
  let ?w' = "w\<lparr>current_span := safe_set_current_span_attributes ext ?attrs (current_span w)\<rparr>"
  have g: "check_citation_accuracy_gate ext config w = Inr (?r, ?w')"
    by (rule gate_disabled[OF assms False])
  show ?thesis
    apply (rule exI[of _ ?r])
    apply (rule exI[of _ ?w'])
    apply (rule exI[of _ ?attrs])
    using g False by (simp add: action_name_def)
next
  case True
  let ?cfg = "config_in_force config"
  let ?t = "gate_tally ext ?cfg (folder_files w)"
  let ?attrs = "enabled_span_attrs ?cfg ?t"
  let ?r = "\<lparr>gate_ok = decided_ok ?cfg (fst (snd (snd ?t))),
                 gate_enabled = True,
                 action = decided_action ?cfg (fst (snd (snd ?t))),
                 reports = fst ?t,
                 checked_claims_total = fst (snd ?t),
                 failed_claims_total = fst (snd (snd ?t)),
                 skipped_missing_evidence_total = snd (snd (snd ?t)),
                 claims_file_present = fst (snd (snd (load_source_backed_claims ext (folder_files w)))),
                 claims_read_error = snd (snd (snd (load_source_backed_claims ext (folder_files w)))),
                 claims_invalid_items = fst (snd (load_source_backed_claims ext (folder_files w))),
                 evidence_invalid_items = fst (snd (load_evidence_map ext (folder_files w))),
                 evidence_files_scanned = snd (snd (load_evidence_map ext (folder_files w)))\<rparr>"
  let ?w' = "w\<lparr>current_span := safe_set_current_span_attributes ext ?attrs (current_span w)\<rparr>"
  have g: "check_citation_accuracy_gate ext config w = Inr (?r, ?w')"
    by (rule gate_enabled[OF assms True])
  have m: "map_of ?attrs ''gate.name'' = Some (AStr ''citation_accuracy'')"
          "map_of ?attrs ''gate.enabled'' = Some (ABool True)"
          "map_of ?attrs ''gate.ok'' = Some (ABool (decided_ok ?cfg (fst (snd (snd ?t)))))"
          "map_of ?attrs ''gate.action'' = Some (AStr (action_name (decided_action ?cfg (fst (snd (snd ?t))))))"
          "map_of ?attrs ''citation_accuracy.checked_claims_total'' = Some (AInt (int (fst (snd ?t))))"
          "map_of ?attrs ''citation_accuracy.failed_claims_total'' = Some (AInt (int (fst (snd (snd ?t)))))"
          "map_of ?attrs ''citation_accuracy.skipped_missing_evidence_total'' = Some (AInt (int (snd (snd (snd ?t)))))"
    by (simp_all add: enabled_span_attrs_def case_prod_beta)
  show ?thesis
    apply (rule exI[of _ ?r])
    apply (rule exI[of _ ?w'])
    apply (rule exI[of _ ?attrs])
    using g m by simp
qed

theorem gate_decision_witness:
  "(case check_citation_accuracy_gate accepting (Some (strict_config OnDowngrade))
           (one_claim_world ''Inflation decreased to 1 percent in 2020.'' [''ev1'']
              ''GDP increased to 5 percent in 2020.'') of
      Inl e \<Rightarrow> False
    | Inr (r, w') \<Rightarrow> action r = Downgrade \<and> gate_ok r \<and> failed_claims_total r = 1)
   \<and> (case check_citation_accuracy_gate accepting (Some (strict_config OnBlock))
           (one_claim_world ''Inflation decreased to 1 percent in 2020.'' [''ev1'']
              ''GDP increased to 5 percent in 2020.'') of
      Inl e \<Rightarrow> False
    | Inr (r, w') \<Rightarrow> action r = Block \<and> \<not> gate_ok r \<and> failed_claims_total r = 1)
   \<and> (case check_citation_accuracy_gate accepting None
           (one_claim_world ''Inflation decreased to 1 percent in 2020.'' [''ev1'']
              ''GDP increased to 5 percent in 2020.'') of
      Inl e \<Rightarrow> False
    | Inr (r, w') \<Rightarrow> action r = Disabled \<and> gate_ok r)"
  (is ?w)
proof -
  have e: ?w by code_simp
  from gate_decision[of accepting
          "one_claim_world ''Inflation decreased to 1 percent in 2020.'' [''ev1'']
              ''GDP increased to 5 percent in 2020.''" "Some (strict_config OnDowngrade)"]
        gate_decision[of accepting
          "one_claim_world ''Inflation decreased to 1 percent in 2020.'' [''ev1'']
              ''GDP increased to 5 percent in 2020.''" "Some (strict_config OnBlock)"]
        gate_decision[of accepting
          "one_claim_world ''Inflation decreased to 1 percent in 2020.'' [''ev1'']
              ''GDP increased to 5 percent in 2020.''" None]
    and e show ?thesis by simp
qed

theorem unresolved_claims_skipped_witness:
  "has_unresolved_id
     (loaded_evidence accepting (folder_files (one_claim_world ''Some statement.'' [''missing''] ''Some excerpt.'')))
     (claim_json ''c1'' ''Some statement.'' [''missing''])
   \<and> (case check_citation_accuracy_gate accepting (Some (strict_config OnBlock))
           (one_claim_world ''Some statement.'' [''missing''] ''Some excerpt.'') of
      Inl e \<Rightarrow> False
    | Inr (r, w') \<Rightarrow> action r = Pass \<and> checked_claims_total r = 0
                      \<and> skipped_missing_evidence_total r = 1
                      \<and> map checked (reports r) = [False] \<and> map ok (reports r) = [True])"
  (is ?w)
proof -
  have e: ?w by code_simp
  from unresolved_claims_skipped[of
          "loaded_evidence accepting (folder_files (one_claim_world ''Some statement.'' [''missing''] ''Some excerpt.''))"
          "claim_json ''c1'' ''Some statement.'' [''missing'']"
          "strict_config OnBlock" accepting "[]" 0 0 0
          "one_claim_world ''Some statement.'' [''missing''] ''Some excerpt.''"
          "Some (strict_config OnBlock)"]
    and e show ?thesis by simp
qed


theorem gate_reads_only_and_sets_span_witness:
  "(case check_citation_accuracy_gate accepting (Some (strict_config OnBlock))
           (one_claim_world ''Inflation decreased to 1 percent in 2020.'' [''ev1'']
              ''GDP increased to 5 percent in 2020.'') of
      Inl e \<Rightarrow> False
    | Inr (r, w') \<Rightarrow>
        current_span w' ''gate.action'' = Some (AStr ''block'')
        \<and> current_span w' ''gate.ok'' = Some (ABool False)
        \<and> current_span w' ''citation_accuracy.failed_claims_total'' = Some (AInt 1))"
  (is ?w)
proof -
  have e: ?w by code_simp
  from gate_reads_only_and_sets_span[of accepting
          "one_claim_world ''Inflation decreased to 1 percent in 2020.'' [''ev1'']
              ''GDP increased to 5 percent in 2020.''" "Some (strict_config OnBlock)"]
    and e show ?thesis by simp
qed

text \<open>
  Claim C8 as stated fails: after an evaluation, blocking or disabled, there is no
  \<open>outputs/gates/citation_accuracy.json\<close> in the folder.
\<close>

theorem gate_writes_no_report:
  "(case check_citation_accuracy_gate accepting (Some (strict_config OnBlock))
           (one_claim_world ''Inflation decreased to 1 percent in 2020.'' [''ev1'']
              ''GDP increased to 5 percent in 2020.'') of
      Inl e \<Rightarrow> False
    | Inr (r, w') \<Rightarrow>
        action r = Block
        \<and> file_at (folder_files w') ''outputs/gates/citation_accuracy.json'' = Missing)
   \<and> (case check_citation_accuracy_gate accepting None
           (one_claim_world ''Inflation decreased to 1 percent in 2020.'' [''ev1'']
              ''GDP increased to 5 percent in 2020.'') of
      Inl e \<Rightarrow> False
    | Inr (r, w') \<Rightarrow>
        action r = Disabled
        \<and> file_at (folder_files w') ''outputs/gates/citation_accuracy.json'' = Missing)"
  by code_simp

end
